theory Spec2Isabelle
  imports Main "HOL-Library.Word"
begin

unbundle bit_operations_syntax

section \<open>Error codes\<close>

text \<open>
  Modelled from the spec: the error-code library (\<open>errorCode_u\<close>, \<open>createErrorCode\<close>,
  \<open>pushErrorCode\<close>, \<open>isError\<close>, \<open>ERR_SUCCESS\<close>) is used by both drivers but is not part
  of the sources at hand. An error code is an origin (the identifier of the reporting
  function), a detail and a severity; success is the zero value; pushing keeps the
  inner severity, overwrites the origin and keeps the innermost non-zero detail.
\<close>

datatype severity = ERR_NONE | ERR_WARNING | ERR_ERROR | ERR_CRITICAL

record errorCode_u =
  origin :: nat
  detail :: nat
  level :: severity

definition ERR_SUCCESS :: errorCode_u where
  "ERR_SUCCESS = \<lparr>origin = 0, detail = 0, level = ERR_NONE\<rparr>"

definition createErrorCode :: "nat \<Rightarrow> nat \<Rightarrow> severity \<Rightarrow> errorCode_u" where
  "createErrorCode functionID newError lvl = \<lparr>origin = functionID, detail = newError, level = lvl\<rparr>"

definition pushErrorCode :: "errorCode_u \<Rightarrow> nat \<Rightarrow> nat \<Rightarrow> errorCode_u" where
  "pushErrorCode oldCode functionID newError =
     \<lparr>origin = functionID,
      detail = (if detail oldCode \<noteq> 0 then detail oldCode else newError),
      level = level oldCode\<rparr>"

definition isError :: "errorCode_u \<Rightarrow> bool" where
  "isError code = (level code \<noteq> ERR_NONE)"

section \<open>Low-level collaborators\<close>

text \<open>
  The calls made to the bus peripheral, the DMA controller and the GPIO outputs are
  recorded in a log (most recent call first), so that "no bus activity" and "one
  transaction" are statements about the log.
\<close>

datatype gpio_pin = SSD1306_DC_Pin | SSD1306_RES_Pin

datatype ll_call =
    LL_SPI_Enable
  | LL_SPI_Disable
  | LL_SPI_TransmitData8 "8 word"
  | LL_SPI_ReceiveData8 "8 word"
  | LL_SPI_ClearFlag_OVR
  | LL_SPI_EnableDMAReq_TX
  | LL_GPIO_ResetOutputPin gpio_pin
  | LL_GPIO_SetOutputPin gpio_pin
  | LL_DMA_DisableChannel
  | LL_DMA_ClearFlag_GI5
  | LL_DMA_SetDataLength "16 word"
  | LL_DMA_EnableChannel

text \<open>
  Every register write, burst read and display command starts by enabling the bus
  peripheral, so the number of enables in a log is the number of bus transactions begun
  (the hand-over of the screen buffer to the DMA enables the peripheral too, and counts
  as one).
\<close>

fun nb_transactions :: "ll_call list \<Rightarrow> nat" where
  "nb_transactions [] = 0"
| "nb_transactions (LL_SPI_Enable # cs) = Suc (nb_transactions cs)"
| "nb_transactions (c # cs) = nb_transactions cs"

section \<open>Accelerometer driver (ADXL345.c)\<close>

subsection \<open>Constants\<close>

text \<open>
  The header \<open>ADXL345registers.h\<close> is not part of the sources at hand. Its register
  numbers, opcodes and bit masks are taken as a parameter \<open>K\<close>, a valuation of the names
  the driver uses.
\<close>

datatype adxl345_name =
    DEVICE_ID | BANDWIDTH_POWERMODE | POWER_CONTROL | INTERRUPT_ENABLE
  | DATA_FORMAT | DATA_X0 | FIFO_CONTROL
  | ADXL_REGISTER_MAXNB | ADXL_HIGH_RESERVED_REG
  | ADXL_WRITE | ADXL_READ | ADXL_SINGLE | ADXL_MULTIPLE
  | ADXL_DEVICE_ID
  | ADXL_NO_SELF_TEST | ADXL_SELF_TEST | ADXL_SPI_4WIRE | ADXL_INT_ACTIV_LOW
  | ADXL_13BIT_RESOL | ADXL_RIGHT_JUSTIFY | ADXL_RANGE_16G
  | ADXL_MODE_BYPASS | ADXL_MODE_FIFO | ADXL_INT_MAP_INT1 | ADXL_SAMPLES_32
  | ADXL_POWER_NORMAL | ADXL_RATE_200HZ | ADXL_MEASURE_MODE | ADXL_INT_WATERMARK

type_synonym adxl345_header = "adxl345_name \<Rightarrow> 8 word"

definition SPI_TIMEOUT_MS :: nat where "SPI_TIMEOUT_MS = 10"
definition INT_TIMEOUT_MS :: nat where "INT_TIMEOUT_MS = 1000"
definition NB_REG_INIT :: nat where "NB_REG_INIT = 6"
definition ADXL_AVG_SHIFT :: nat where "ADXL_AVG_SHIFT = 5"
definition ST_WAIT_MS :: nat where "ST_WAIT_MS = 25"

definition ADXL_AVG_SAMPLES :: "adxl345_header \<Rightarrow> 8 word" where
  "ADXL_AVG_SAMPLES K = K ADXL_SAMPLES_32"

text \<open>
  Modelled from the spec: \<open>ADXL_NB_DATA_REGISTERS\<close> belongs to the absent header; the
  spec fixes it ("each sample is six bytes, two little-endian two's-complement bytes per
  axis").
\<close>

definition ADXL_NB_DATA_REGISTERS :: nat where "ADXL_NB_DATA_REGISTERS = 6"

text \<open>The build-time assertion \<open>(ADXL_AVG_SAMPLES >> ADXL_AVG_SHIFT) == 1\<close>.\<close>

definition static_assert_AVG :: "8 word \<Rightarrow> nat \<Rightarrow> bool" where
  "static_assert_AVG samples shift = (drop_bit shift samples = 1)"

definition DATA_FORMAT_DEFAULT :: "adxl345_header \<Rightarrow> 8 word" where
  "DATA_FORMAT_DEFAULT K =
     K ADXL_NO_SELF_TEST OR K ADXL_SPI_4WIRE OR K ADXL_INT_ACTIV_LOW
       OR K ADXL_13BIT_RESOL OR K ADXL_RIGHT_JUSTIFY OR K ADXL_RANGE_16G"

definition FIFO_CONTROL_DEFAULT :: "adxl345_header \<Rightarrow> 8 word" where
  "FIFO_CONTROL_DEFAULT K = K ADXL_MODE_FIFO OR K ADXL_INT_MAP_INT1 OR (ADXL_AVG_SAMPLES K - 1)"

datatype ADXLfunctionCodes_e =
    INIT | SELF_TESTING_OFF | SELF_TEST_WAIT | SELF_TESTING_ON | MEASURE | CHK_MEASURES
  | WRITE_REGISTER | READ_REGISTERS | GET_X_ANGLE | GET_Y_ANGLE | INTEGRATE | POP_FIFO
  | STARTUP

fun adxl_id :: "ADXLfunctionCodes_e \<Rightarrow> nat" where
  "adxl_id INIT = 0"
| "adxl_id SELF_TESTING_OFF = 1"
| "adxl_id SELF_TEST_WAIT = 2"
| "adxl_id SELF_TESTING_ON = 3"
| "adxl_id MEASURE = 4"
| "adxl_id CHK_MEASURES = 5"
| "adxl_id WRITE_REGISTER = 6"
| "adxl_id READ_REGISTERS = 7"
| "adxl_id GET_X_ANGLE = 8"
| "adxl_id GET_Y_ANGLE = 9"
| "adxl_id INTEGRATE = 10"
| "adxl_id POP_FIFO = 11"
| "adxl_id STARTUP = 12"

subsection \<open>State\<close>

datatype axis_e = X_AXIS | Y_AXIS | Z_AXIS

text \<open>The state pointer \<open>_state\<close> holds one of the seven state functions.\<close>

datatype adxlState =
    Startup | Configuring | MeasuringST_OFF | WaitingForSTenabled | MeasuringST_ON
  | Measuring | Error

text \<open>
  The module's variables, followed by what the collaborators will answer: the level of
  the watermark pin, the number of milliseconds the bus needs before the flag polled by
  the k-th busy-wait comes, and the k-th byte the device shifts out. The last two fields
  are kept for the statements only and are out of the code's reach: the log of the calls
  made, and the milliseconds gone by, which the tick source counts while it decrements
  the countdowns.
\<close>

record adxl =
  adxlTimer_ms :: nat
  adxlSPITimer_ms :: nat
  state :: adxlState
  measurementsUpdated :: "8 word"
  latestValues :: "axis_e \<Rightarrow> 32 word"
  previousValues :: "axis_e \<Rightarrow> 32 word"
  zeroValues :: "axis_e \<Rightarrow> 32 word"
  result :: errorCode_u
  INT1_pin :: bool
  spi_flag_ms :: "nat \<Rightarrow> nat"
  spi_waits :: nat
  spi_miso :: "nat \<Rightarrow> 8 word"
  spi_reads :: nat
  spi_log :: "ll_call list"
  elapsed_ms :: nat

text \<open>
  The tick source decrements every countdown by one each millisecond and stops at zero
  (subtraction on \<open>nat\<close> stops at zero).
\<close>

definition tick :: "nat \<Rightarrow> adxl \<Rightarrow> adxl" where
  "tick n s = s\<lparr>adxlTimer_ms := adxlTimer_ms s - n, adxlSPITimer_ms := adxlSPITimer_ms s - n,
                elapsed_ms := elapsed_ms s + n\<rparr>"

text \<open>
  A busy-wait \<open>while(!flag && adxlSPITimer_ms);\<close> ends when the flag comes or when the
  countdown reaches zero, whichever is first.
\<close>

definition spin :: "adxl \<Rightarrow> adxl" where
  "spin s = tick (min (spi_flag_ms s (spi_waits s)) (adxlSPITimer_ms s))
                 (s\<lparr>spi_waits := Suc (spi_waits s)\<rparr>)"

definition ll :: "ll_call \<Rightarrow> adxl \<Rightarrow> adxl" where
  "ll c s = s\<lparr>spi_log := c # spi_log s\<rparr>"

definition receiveData8 :: "adxl \<Rightarrow> 8 word \<times> adxl" where
  "receiveData8 s =
     (let b = spi_miso s (spi_reads s)
      in (b, s\<lparr>spi_reads := Suc (spi_reads s), spi_log := LL_SPI_ReceiveData8 b # spi_log s\<rparr>))"

definition isFIFOdataReady :: "adxl \<Rightarrow> bool" where
  "isFIFOdataReady s = (\<not> INT1_pin s)"

subsection \<open>Public queries\<close>

definition ADXL345hasChanged :: "axis_e \<Rightarrow> adxl \<Rightarrow> 8 word \<times> adxl" where
  "ADXL345hasChanged axis s =
     (let tmp = (if latestValues s axis \<noteq> previousValues s axis then 1 else 0)
      in (tmp, s\<lparr>previousValues := (previousValues s)(axis := latestValues s axis)\<rparr>))"

text \<open>
  The floating-point part of the angle derivation, \<open>(int16_t)(atanf(num / den) * K)\<close>,
  is a parameter \<open>atan_tenths\<close> of the model; the guard before it is the code's.
\<close>

definition getAngleDegreesTenths ::
  "(32 word \<Rightarrow> 32 word \<Rightarrow> 16 word) \<Rightarrow> axis_e \<Rightarrow> adxl \<Rightarrow> 16 word" where
  "getAngleDegreesTenths atan_tenths axis s =
     (if latestValues s Z_AXIS = 0 then 0
      else atan_tenths (latestValues s axis + zeroValues s axis) (latestValues s Z_AXIS))"

definition ADXLzeroDown :: "adxl \<Rightarrow> adxl" where
  "ADXLzeroDown s =
     s\<lparr>zeroValues := (zeroValues s)(X_AXIS := - latestValues s X_AXIS,
                                     Y_AXIS := - latestValues s Y_AXIS)\<rparr>"

definition ADXLcancelZeroing :: "adxl \<Rightarrow> adxl" where
  "ADXLcancelZeroing s = s\<lparr>zeroValues := (\<lambda>axis. 0)\<rparr>"

subsection \<open>Timed bus transactions\<close>

definition writeRegister :: "adxl345_header \<Rightarrow> 8 word \<Rightarrow> 8 word \<Rightarrow> adxl \<Rightarrow> errorCode_u \<times> adxl" where
  "writeRegister K registerNumber val s =
     (if registerNumber > K ADXL_REGISTER_MAXNB \<or> registerNumber - 1 < K ADXL_HIGH_RESERVED_REG
      then (createErrorCode (adxl_id WRITE_REGISTER) 1 ERR_WARNING, s)
      else
        let s1 = ll LL_SPI_Enable (s\<lparr>adxlSPITimer_ms := SPI_TIMEOUT_MS\<rparr>);
            s2 = ll (LL_SPI_TransmitData8 (K ADXL_WRITE OR K ADXL_SINGLE OR registerNumber)) s1;
            s3 = spin s2;
            s4 = (if adxlSPITimer_ms s3 \<noteq> 0 then ll (LL_SPI_TransmitData8 val) s3 else s3);
            s5 = spin s4;
            s6 = ll LL_SPI_Disable (ll LL_SPI_ClearFlag_OVR s5)
        in if adxlSPITimer_ms s6 = 0
           then (createErrorCode (adxl_id WRITE_REGISTER) 2 ERR_WARNING, s6)
           else (ERR_SUCCESS, s6))"

definition SPI_RX_FILLER :: "8 word" where "SPI_RX_FILLER = 0xFF"

text \<open>
  The body of the do-while loop of \<open>readRegisters\<close>: send the filler, wait for the
  byte, store it where the iterator points (\<open>it\<close> is its position in the output array).
\<close>

definition read_byte :: "nat \<Rightarrow> 8 word list \<Rightarrow> adxl \<Rightarrow> 8 word list \<times> adxl" where
  "read_byte it val s =
     (let s1 = spin (ll (LL_SPI_TransmitData8 SPI_RX_FILLER) s);
          (b, s2) = receiveData8 s1
      in (val[it := b], s2))"

text \<open>
  The do-while loop itself, with \<open>n\<close> the bytes still to read: at least one on entry,
  since a request of zero bytes returns before the loop.
\<close>

function read_loop :: "nat \<Rightarrow> nat \<Rightarrow> 8 word list \<Rightarrow> adxl \<Rightarrow> 8 word list \<times> adxl" where
  "read_loop n it val s =
     (let (val', s') = read_byte it val s
      in if n - 1 \<noteq> 0 \<and> adxlSPITimer_ms s' \<noteq> 0
         then read_loop (n - 1) (Suc it) val' s'
         else (val', s'))"
  by pat_completeness auto
termination
  by (relation "measure (\<lambda>(n, it, val, s). n)") auto

declare read_loop.simps [simp del]

definition readRegisters ::
  "adxl345_header \<Rightarrow> 8 word \<Rightarrow> 8 word list \<Rightarrow> nat \<Rightarrow> adxl \<Rightarrow> errorCode_u \<times> 8 word list \<times> adxl" where
  "readRegisters K firstRegister val n s =
     (if n = 0 then (ERR_SUCCESS, val, s)
      else if firstRegister > K ADXL_REGISTER_MAXNB
      then (createErrorCode (adxl_id READ_REGISTERS) 1 ERR_WARNING, val, s)
      else
        let s1 = ll LL_SPI_Enable (s\<lparr>adxlSPITimer_ms := SPI_TIMEOUT_MS\<rparr>);
            s2 = spin (ll (LL_SPI_TransmitData8 (K ADXL_READ OR K ADXL_MULTIPLE OR firstRegister)) s1);
            (b, s3) = receiveData8 s2;
            (val', s4) = read_loop n 0 (val[0 := b]) s3;
            s5 = spin s4;
            s6 = ll LL_SPI_Disable (ll LL_SPI_ClearFlag_OVR s5)
        in if adxlSPITimer_ms s6 = 0
           then (createErrorCode (adxl_id READ_REGISTERS) 2 ERR_WARNING, val', s6)
           else (ERR_SUCCESS, val', s6))"

subsection \<open>FIFO integration\<close>

text \<open>
  \<open>((int16_t)bytes[1] << 8) | (int16_t)bytes[0]\<close>, converted back to \<open>int16_t\<close>.
\<close>

definition twoComplement :: "8 word list \<Rightarrow> 16 word" where
  "twoComplement bytes = push_bit 8 (ucast (bytes ! 1)) OR ucast (bytes ! 0)"

definition axis_index :: "axis_e \<Rightarrow> nat" where
  "axis_index axis = (case axis of X_AXIS \<Rightarrow> 0 | Y_AXIS \<Rightarrow> 1 | Z_AXIS \<Rightarrow> 2)"

text \<open>
  The loop over the samples: \<open>n\<close> samples are still to read. The local array \<open>buffer\<close>
  keeps its bytes from one read to the next and is only looked at after a read that
  succeeded. The short delay loop between two reads touches no variable of the module.
  The 16-bit sample is sign-extended and added to the 32-bit accumulator.
\<close>

fun integrate_loop ::
  "adxl345_header \<Rightarrow> nat \<Rightarrow> 8 word list \<Rightarrow> (axis_e \<Rightarrow> 32 word) \<Rightarrow> adxl
     \<Rightarrow> errorCode_u option \<times> (axis_e \<Rightarrow> 32 word) \<times> adxl" where
  "integrate_loop K 0 buffer vals s = (None, vals, s)"
| "integrate_loop K (Suc n) buffer vals s =
     (let (r, buffer', s1) = readRegisters K (K DATA_X0) buffer ADXL_NB_DATA_REGISTERS s;
          s2 = s1\<lparr>result := r\<rparr>
      in if isError r
         then (Some (pushErrorCode r (adxl_id INTEGRATE) 1), vals, s2\<lparr>state := Error\<rparr>)
         else integrate_loop K n buffer'
                (\<lambda>axis. vals axis + scast (twoComplement (drop (push_bit 1 (axis_index axis)) buffer')))
                s2)"

text \<open>
  \<open>values[axis] >>= ADXL_AVG_SHIFT\<close> on a signed 32-bit integer is the arithmetic
  shift of the target's compiler (the source notes it was tested on negatives).
\<close>

definition integrateFIFO ::
  "adxl345_header \<Rightarrow> adxl \<Rightarrow> errorCode_u \<times> (axis_e \<Rightarrow> 32 word) \<times> adxl" where
  "integrateFIFO K s =
     (case integrate_loop K (unat (ADXL_AVG_SAMPLES K)) (replicate ADXL_NB_DATA_REGISTERS 0) (\<lambda>axis. 0) s of
        (Some e, vals, s') \<Rightarrow> (e, vals, s')
      | (None, vals, s') \<Rightarrow> (ERR_SUCCESS, (\<lambda>axis. signed_drop_bit ADXL_AVG_SHIFT (vals axis)), s'))"

text \<open>
  The bytes the device will shift out during the j-th burst read that follows state
  \<open>s\<close>: a burst exchanges seven bytes, the first while the opcode goes out, then the
  low and the high byte of X, of Y and of Z. \<open>fifo_sample\<close> is what the code's
  \<open>twoComplement\<close> makes of the two bytes of an axis; it serves the proofs.
\<close>

definition fifo_sample :: "adxl \<Rightarrow> nat \<Rightarrow> axis_e \<Rightarrow> 16 word" where
  "fifo_sample s j axis =
     twoComplement [spi_miso s (spi_reads s + 7 * j + 1 + 2 * axis_index axis),
                    spi_miso s (spi_reads s + 7 * j + 2 + 2 * axis_index axis)]"

text \<open>
  Following the spec's words, not the code ("each sample is six bytes, two little-endian
  two's-complement bytes per axis"): the number that a low byte and a high byte stand
  for is the unsigned value \<open>low + 256 * high\<close>, less \<open>65536\<close> when its bit 15 is set.
  \<open>spec_fifo_sample\<close> is that number for the two bytes of an axis in the j-th burst
  read, X first, then Y, then Z. It is an integer, and owes nothing to
  \<open>twoComplement\<close>.
\<close>

definition spec_twoComplement :: "8 word \<Rightarrow> 8 word \<Rightarrow> int" where
  "spec_twoComplement low high =
     (let u = uint low + 256 * uint high in if u < 32768 then u else u - 65536)"

definition spec_fifo_sample :: "adxl \<Rightarrow> nat \<Rightarrow> axis_e \<Rightarrow> int" where
  "spec_fifo_sample s j axis =
     (case axis of
        X_AXIS \<Rightarrow> spec_twoComplement (spi_miso s (spi_reads s + 7 * j + 1)) (spi_miso s (spi_reads s + 7 * j + 2))
      | Y_AXIS \<Rightarrow> spec_twoComplement (spi_miso s (spi_reads s + 7 * j + 3)) (spi_miso s (spi_reads s + 7 * j + 4))
      | Z_AXIS \<Rightarrow> spec_twoComplement (spi_miso s (spi_reads s + 7 * j + 5)) (spi_miso s (spi_reads s + 7 * j + 6)))"

subsection \<open>State functions\<close>

definition stStartup :: "adxl345_header \<Rightarrow> adxl \<Rightarrow> errorCode_u \<times> adxl" where
  "stStartup K s =
     (if adxlTimer_ms s = 0
      then (createErrorCode (adxl_id STARTUP) 1 ERR_CRITICAL, s\<lparr>state := Error\<rparr>)
      else
        let (r, deviceID, s1) = readRegisters K (K DEVICE_ID) [0] 1 s;
            s2 = s1\<lparr>result := r\<rparr>
        in if isError r then (pushErrorCode r (adxl_id STARTUP) 2, s2)
           else if deviceID ! 0 \<noteq> K ADXL_DEVICE_ID then (ERR_SUCCESS, s2)
           else (ERR_SUCCESS, s2\<lparr>state := Configuring\<rparr>))"

definition initialisationArray :: "adxl345_header \<Rightarrow> (8 word \<times> 8 word) list" where
  "initialisationArray K =
     [(K DATA_FORMAT, DATA_FORMAT_DEFAULT K),
      (K BANDWIDTH_POWERMODE, K ADXL_POWER_NORMAL OR K ADXL_RATE_200HZ),
      (K FIFO_CONTROL, K ADXL_MODE_BYPASS),
      (K FIFO_CONTROL, FIFO_CONTROL_DEFAULT K),
      (K POWER_CONTROL, K ADXL_MEASURE_MODE),
      (K INTERRUPT_ENABLE, K ADXL_INT_WATERMARK)]"

text \<open>The loop of \<open>stConfiguring\<close> over the rows of the array that are still to write.\<close>

fun configure_loop ::
  "adxl345_header \<Rightarrow> (8 word \<times> 8 word) list \<Rightarrow> adxl \<Rightarrow> errorCode_u option \<times> adxl" where
  "configure_loop K [] s = (None, s)"
| "configure_loop K (row # rows) s =
     (let (r, s1) = writeRegister K (fst row) (snd row) s;
          s2 = s1\<lparr>result := r\<rparr>
      in if isError r
         then (Some (pushErrorCode r (adxl_id INIT) 1), s2\<lparr>state := Error\<rparr>)
         else configure_loop K rows s2)"

definition stConfiguring :: "adxl345_header \<Rightarrow> adxl \<Rightarrow> errorCode_u \<times> adxl" where
  "stConfiguring K s =
     (case configure_loop K (initialisationArray K) s of
        (Some e, s') \<Rightarrow> (e, s')
      | (None, s') \<Rightarrow> (result s', s'\<lparr>adxlTimer_ms := INT_TIMEOUT_MS, state := MeasuringST_OFF\<rparr>))"

text \<open>
  \<open>integrateFIFO(_latestValues)\<close> accumulates in place, so the array holds what the
  integration left there also when it failed.
\<close>

definition stMeasuringST_OFF :: "adxl345_header \<Rightarrow> adxl \<Rightarrow> errorCode_u \<times> adxl" where
  "stMeasuringST_OFF K s =
     (if adxlTimer_ms s = 0
      then (createErrorCode (adxl_id SELF_TESTING_OFF) 1 ERR_ERROR, s\<lparr>state := Error\<rparr>)
      else if \<not> isFIFOdataReady s then (ERR_SUCCESS, s)
      else
        let (r1, vals, s1) = integrateFIFO K s;
            s2 = s1\<lparr>latestValues := vals, result := r1\<rparr>
        in if isError r1
           then (pushErrorCode r1 (adxl_id SELF_TESTING_OFF) 2, s2\<lparr>state := Error\<rparr>)
           else
             let (r2, s3) = writeRegister K (K DATA_FORMAT) (DATA_FORMAT_DEFAULT K OR K ADXL_SELF_TEST) s2;
                 s4 = s3\<lparr>result := r2\<rparr>
             in if isError r2
                then (pushErrorCode r2 (adxl_id SELF_TESTING_OFF) 3, s4\<lparr>state := Error\<rparr>)
                else
                  let (r3, s5) = writeRegister K (K FIFO_CONTROL) (K ADXL_MODE_BYPASS) s4;
                      s6 = s5\<lparr>result := r3\<rparr>
                  in if isError r3
                     then (pushErrorCode r3 (adxl_id SELF_TESTING_OFF) 4, s6\<lparr>state := Error\<rparr>)
                     else (ERR_SUCCESS, s6\<lparr>adxlTimer_ms := ST_WAIT_MS, state := WaitingForSTenabled\<rparr>))"

definition stWaitingForSTenabled :: "adxl345_header \<Rightarrow> adxl \<Rightarrow> errorCode_u \<times> adxl" where
  "stWaitingForSTenabled K s =
     (if adxlTimer_ms s = 0 then (ERR_SUCCESS, s)
      else
        let (r, s1) = writeRegister K (K FIFO_CONTROL) (FIFO_CONTROL_DEFAULT K) s;
            s2 = s1\<lparr>result := r\<rparr>
        in if isError r
           then (pushErrorCode r (adxl_id SELF_TEST_WAIT) 1, s2\<lparr>state := Error\<rparr>)
           else (ERR_SUCCESS, s2\<lparr>adxlTimer_ms := INT_TIMEOUT_MS, state := MeasuringST_ON\<rparr>))"

text \<open>The table \<open>ST_MAXDELTAS\<close>: for each axis the two bounds of the self-test delta.\<close>

fun ST_MAXDELTAS :: "axis_e \<Rightarrow> 16 word \<times> 16 word" where
  "ST_MAXDELTAS X_AXIS = (85, 949)"
| "ST_MAXDELTAS Y_AXIS = (- 949, - 85)"
| "ST_MAXDELTAS Z_AXIS = (118, 1294)"

text \<open>
  The condition of the \<open>if\<close> that rejects the self-test deltas; the 16-bit bounds are
  promoted to the signed 32-bit type of the deltas.
\<close>

definition ST_out_of_range :: "(axis_e \<Rightarrow> 32 word) \<Rightarrow> bool" where
  "ST_out_of_range STdeltas =
     (STdeltas X_AXIS \<le>s scast (fst (ST_MAXDELTAS X_AXIS)) \<or> scast (snd (ST_MAXDELTAS X_AXIS)) \<le>s STdeltas X_AXIS
      \<or> STdeltas Y_AXIS \<le>s scast (fst (ST_MAXDELTAS Y_AXIS)) \<or> scast (snd (ST_MAXDELTAS Y_AXIS)) \<le>s STdeltas Y_AXIS
      \<or> STdeltas Z_AXIS \<le>s scast (fst (ST_MAXDELTAS Z_AXIS)) \<or> scast (snd (ST_MAXDELTAS Z_AXIS)) \<le>s STdeltas Z_AXIS)"

definition stMeasuringST_ON :: "adxl345_header \<Rightarrow> adxl \<Rightarrow> errorCode_u \<times> adxl" where
  "stMeasuringST_ON K s =
     (if adxlTimer_ms s = 0
      then (createErrorCode (adxl_id SELF_TESTING_ON) 1 ERR_ERROR, s\<lparr>state := Error\<rparr>)
      else if \<not> isFIFOdataReady s then (ERR_SUCCESS, s)
      else
        let (r1, vals, s1) = integrateFIFO K s;
            s2 = s1\<lparr>result := r1\<rparr>
        in if isError r1
           then (pushErrorCode r1 (adxl_id SELF_TESTING_ON) 2, s2\<lparr>state := Error\<rparr>)
           else
             let STdeltas = (\<lambda>axis. vals axis - latestValues s2 axis)
             in if ST_out_of_range STdeltas
                then (pushErrorCode r1 (adxl_id SELF_TESTING_ON) 3, s2\<lparr>state := Error\<rparr>)
                else
                  let (r2, s3) = writeRegister K (K DATA_FORMAT) (DATA_FORMAT_DEFAULT K) s2;
                      s4 = s3\<lparr>result := r2\<rparr>
                  in if isError r2
                     then (pushErrorCode r2 (adxl_id SELF_TESTING_ON) 4, s4\<lparr>state := Error\<rparr>)
                     else (ERR_SUCCESS, s4\<lparr>adxlTimer_ms := INT_TIMEOUT_MS, state := Measuring\<rparr>))"

definition stMeasuring :: "adxl345_header \<Rightarrow> adxl \<Rightarrow> errorCode_u \<times> adxl" where
  "stMeasuring K s =
     (if adxlTimer_ms s = 0
      then (createErrorCode (adxl_id MEASURE) 1 ERR_ERROR, s\<lparr>state := Error\<rparr>)
      else if \<not> isFIFOdataReady s then (ERR_SUCCESS, s)
      else
        let (r, vals, s1) = integrateFIFO K (s\<lparr>adxlTimer_ms := INT_TIMEOUT_MS\<rparr>);
            s2 = s1\<lparr>latestValues := vals, result := r\<rparr>
        in if isError r
           then (pushErrorCode r (adxl_id MEASURE) 2, s2\<lparr>state := Error\<rparr>)
           else (ERR_SUCCESS, s2\<lparr>measurementsUpdated := 1\<rparr>))"

definition stError :: "adxl \<Rightarrow> errorCode_u \<times> adxl" where
  "stError s = (ERR_SUCCESS, s)"

text \<open>\<open>ADXL345update\<close> calls the function the state pointer holds.\<close>

definition ADXL345update :: "adxl345_header \<Rightarrow> adxl \<Rightarrow> errorCode_u \<times> adxl" where
  "ADXL345update K s =
     (case state s of
        Startup \<Rightarrow> stStartup K s
      | Configuring \<Rightarrow> stConfiguring K s
      | MeasuringST_OFF \<Rightarrow> stMeasuringST_OFF K s
      | WaitingForSTenabled \<Rightarrow> stWaitingForSTenabled K s
      | MeasuringST_ON \<Rightarrow> stMeasuringST_ON K s
      | Measuring \<Rightarrow> stMeasuring K s
      | Error \<Rightarrow> stError s)"

section \<open>Display driver (SSD1306.c)\<close>

subsection \<open>Constants\<close>

text \<open>
  The header \<open>SSD1306_registers.h\<close> is not part of the sources at hand; its command
  numbers and option bits are a parameter \<open>R\<close>. The same holds for the font of
  \<open>numbersVerdana16.h\<close> and the icons of \<open>icons.h\<close>, gathered in the parameter \<open>B\<close>;
  the dimensions that bound a loop with an 8-bit counter are 8-bit values. Both drivers
  define \<open>SPI_TIMEOUT_MS\<close> as 10.
\<close>

datatype ssd1306_name =
    SCAN_DIRECTION_N1_0 | HARDWARE_CONFIG | SEGMENT_REMAP_127 | MEMORY_ADDR_MODE
  | CONTRAST_CONTROL | CLOCK_DIVIDE_RATIO | CHG_PUMP_REGULATOR | DISPLAY_ON
  | COLUMN_ADDRESS | PAGE_ADDRESS
  | SSD_PIN_CONFIG_ALT | SSD_COM_REMAP_DISABLE | SSD_HORIZONTAL_ADDR | SSD_CONTRAST_HIGHEST
  | SSD_CLOCK_FREQ_MID | SSD_CLOCK_DIVIDER_1 | SSD_ENABLE_CHG_PUMP

type_synonym ssd1306_header = "ssd1306_name \<Rightarrow> 8 word"

record bitmaps =
  VERDANA_CHAR_WIDTH :: "8 word"
  VERDANA_NB_PAGES :: "8 word"
  VERDANA_NB_BYTES_CHAR :: nat
  INDEX_PLUS :: "8 word"
  INDEX_MINUS :: "8 word"
  INDEX_DOT :: "8 word"
  INDEX_DEG :: "8 word"
  verdana_16ptNumbers :: "nat \<Rightarrow> nat \<Rightarrow> 8 word"
  REFERENCETYPE_NB_BYTES :: "8 word"
  absoluteReferentialIcon :: "nat \<Rightarrow> 8 word"
  relativeReferentialIcon :: "nat \<Rightarrow> 8 word"
  holdIcon :: "nat \<Rightarrow> 8 word"
  arrowsIcon_32px :: "nat \<Rightarrow> 8 word"

definition ARROWSICON_NB_BYTES :: nat where "ARROWSICON_NB_BYTES = 255 + 1"
definition ARROWSICON_WIDTH :: nat where "ARROWSICON_WIDTH = 32"

definition MAX_DATA_SIZE :: nat where "MAX_DATA_SIZE = 1024"
definition ANGLE_NB_CHARS :: nat where "ANGLE_NB_CHARS = 6"
definition SSD_LAST_COLUMN :: nat where "SSD_LAST_COLUMN = 127"
definition SSD_LAST_PAGE :: nat where "SSD_LAST_PAGE = 31"

definition REFTYPE_PAGE :: "8 word" where
  "REFTYPE_PAGE = of_nat SSD_LAST_PAGE"

definition REFTYPE_COLUMN :: "bitmaps \<Rightarrow> 8 word" where
  "REFTYPE_COLUMN B = of_nat SSD_LAST_COLUMN - REFERENCETYPE_NB_BYTES B"

text \<open>The two build-time assertions on the font.\<close>

definition static_assert_font :: "bitmaps \<Rightarrow> bool" where
  "static_assert_font B =
     (ANGLE_NB_CHARS * VERDANA_NB_BYTES_CHAR B \<le> MAX_DATA_SIZE
      \<and> ANGLE_NB_CHARS * unat (VERDANA_CHAR_WIDTH B) \<le> SSD_LAST_COLUMN + 1)"

datatype SSD1306functionCodes_e = INIT_ssd | SEND_CMD | PRT_ANGLE | SENDING_DATA | WAITING_DMA_RDY

fun ssd_id :: "SSD1306functionCodes_e \<Rightarrow> nat" where
  "ssd_id INIT_ssd = 0"
| "ssd_id SEND_CMD = 1"
| "ssd_id PRT_ANGLE = 2"
| "ssd_id SENDING_DATA = 3"
| "ssd_id WAITING_DMA_RDY = 4"

datatype rotationAxis_e = ROLL | PITCH
datatype referentialType_e = ABSOLUTE | RELATIVE

subsection \<open>State\<close>

text \<open>The state pointer of the display holds one of four state functions.\<close>

datatype screenState = Idle | Configuring_ssd | SendingData | WaitingForTXdone

text \<open>
  The module's variables, followed by the collaborators: the DMA error and completion
  flags, the milliseconds the bus needs before the flag polled by the k-th busy-wait
  comes, the log of the calls made and the milliseconds gone by.
\<close>

record ssd =
  screenTimer_ms :: nat
  ssd1306SPITimer_ms :: nat
  state_ssd :: screenState
  screenBuffer :: "8 word list"
  limitColumns :: "8 word list"
  limitPages :: "8 word list"
  size_ssd :: "16 word"
  DMA_TE5 :: bool
  DMA_TC5 :: bool
  ssd_flag_ms :: "nat \<Rightarrow> nat"
  ssd_waits :: nat
  ssd_log :: "ll_call list"
  elapsed_ms_ssd :: nat

definition tick_ssd :: "nat \<Rightarrow> ssd \<Rightarrow> ssd" where
  "tick_ssd n s = s\<lparr>screenTimer_ms := screenTimer_ms s - n, ssd1306SPITimer_ms := ssd1306SPITimer_ms s - n,
                    elapsed_ms_ssd := elapsed_ms_ssd s + n\<rparr>"

definition spin_ssd :: "ssd \<Rightarrow> ssd" where
  "spin_ssd s = tick_ssd (min (ssd_flag_ms s (ssd_waits s)) (ssd1306SPITimer_ms s))
                         (s\<lparr>ssd_waits := Suc (ssd_waits s)\<rparr>)"

definition ll_ssd :: "ll_call \<Rightarrow> ssd \<Rightarrow> ssd" where
  "ll_ssd c s = s\<lparr>ssd_log := c # ssd_log s\<rparr>"

datatype DCgpio_e = COMMAND | DATA

definition setDataCommandGPIO :: "DCgpio_e \<Rightarrow> ssd \<Rightarrow> ssd" where
  "setDataCommandGPIO function s =
     (if function = COMMAND then ll_ssd (LL_GPIO_ResetOutputPin SSD1306_DC_Pin) s
      else ll_ssd (LL_GPIO_SetOutputPin SSD1306_DC_Pin) s)"

subsection \<open>Commands\<close>

text \<open>
  The loop of \<open>sendCommand\<close> over the parameters still to send:
  \<open>while(nbParameters && ssd1306SPITimer_ms)\<close>.
\<close>

fun parameters_loop :: "8 word list \<Rightarrow> ssd \<Rightarrow> ssd" where
  "parameters_loop [] s = s"
| "parameters_loop (p # ps) s =
     (if ssd1306SPITimer_ms s = 0 then s
      else
        let s1 = spin_ssd s;
            s2 = (if ssd1306SPITimer_ms s1 \<noteq> 0 then ll_ssd (LL_SPI_TransmitData8 p) s1 else s1)
        in parameters_loop ps s2)"

definition MAX_PARAMETERS :: nat where "MAX_PARAMETERS = 6"

text \<open>
  \<open>parameters\<close> holds the bytes the pointer of the same name points at; the callers
  pass at least \<open>nbParameters\<close> of them.
\<close>

definition sendCommand :: "8 word \<Rightarrow> 8 word list \<Rightarrow> nat \<Rightarrow> ssd \<Rightarrow> errorCode_u \<times> ssd" where
  "sendCommand regNumber parameters nbParameters s =
     (if nbParameters > MAX_PARAMETERS
      then (createErrorCode (ssd_id SEND_CMD) 1 ERR_WARNING, s)
      else
        let s1 = ll_ssd LL_SPI_Enable (setDataCommandGPIO COMMAND (s\<lparr>ssd1306SPITimer_ms := SPI_TIMEOUT_MS\<rparr>));
            s2 = ll_ssd (LL_SPI_TransmitData8 regNumber) s1;
            s3 = parameters_loop (take nbParameters parameters) s2;
            s4 = spin_ssd s3;
            s5 = ll_ssd LL_SPI_Disable (ll_ssd LL_SPI_ClearFlag_OVR s4)
        in if ssd1306SPITimer_ms s5 = 0
           then (createErrorCode (ssd_id SEND_CMD) 2 ERR_WARNING, s5)
           else (ERR_SUCCESS, s5))"

subsection \<open>Buffer preparation\<close>

definition LIGN :: "8 word" where "LIGN = 0x03"

definition SSD1306drawBaseScreen :: "bitmaps \<Rightarrow> ssd \<Rightarrow> errorCode_u \<times> ssd" where
  "SSD1306drawBaseScreen B s =
     (let blank = replicate MAX_DATA_SIZE (0 :: 8 word);
          separator = fold (\<lambda>i buf. buf[drop_bit 1 MAX_DATA_SIZE + i := LIGN])
                        [ARROWSICON_WIDTH ..< Suc SSD_LAST_COLUMN] blank;
          arrows = fold (\<lambda>i buf. buf[(i div ARROWSICON_WIDTH) * (SSD_LAST_COLUMN + 1) + i mod ARROWSICON_WIDTH
                                        := arrowsIcon_32px B i])
                        [0 ..< ARROWSICON_NB_BYTES] separator;
          icon = fold (\<lambda>i buf. buf[MAX_DATA_SIZE - unat (REFERENCETYPE_NB_BYTES B) + i := absoluteReferentialIcon B i])
                        [0 ..< unat (REFERENCETYPE_NB_BYTES B)] arrows
      in (ERR_SUCCESS,
          s\<lparr>limitColumns := [0, of_nat SSD_LAST_COLUMN],
            limitPages := [0, of_nat SSD_LAST_PAGE],
            size_ssd := of_nat MAX_DATA_SIZE,
            screenBuffer := icon,
            state_ssd := SendingData\<rparr>))"

definition isScreenReady :: "ssd \<Rightarrow> bool" where
  "isScreenReady s = (state_ssd s = Idle)"

definition ANGLE_COLUMN :: "8 word" where "ANGLE_COLUMN = 40"
definition ANGLE_ROLL_PAGE :: "8 word" where "ANGLE_ROLL_PAGE = 1"
definition ANGLE_PITCH_PAGE :: "8 word" where "ANGLE_PITCH_PAGE = 5"
definition MIN_ANGLE_DEG_TENTHS :: "16 word" where "MIN_ANGLE_DEG_TENTHS = - 900"
definition MAX_ANGLE_DEG_TENTHS :: "16 word" where "MAX_ANGLE_DEG_TENTHS = 900"

text \<open>
  The angle is clamped, then made positive; from there on it lies between 0 and 900,
  where the division of C and \<open>div\<close> on the unsigned reading agree.
\<close>

definition SSD1306_printAngleTenths :: "bitmaps \<Rightarrow> 16 word \<Rightarrow> rotationAxis_e \<Rightarrow> ssd \<Rightarrow> errorCode_u \<times> ssd" where
  "SSD1306_printAngleTenths B angleTenths rotationAxis s =
     (let a1 = (if angleTenths <s MIN_ANGLE_DEG_TENTHS then MIN_ANGLE_DEG_TENTHS else angleTenths);
          a2 = (if MAX_ANGLE_DEG_TENTHS <s a1 then MAX_ANGLE_DEG_TENTHS else a1);
          sign = (if a2 <s 0 then INDEX_MINUS B else INDEX_PLUS B);
          a3 = (if a2 <s 0 then - a2 else a2);
          charIndexes = [sign, ucast (a3 div 100), ucast ((a3 div 10) mod 10), INDEX_DOT B,
                         ucast (a3 mod 10), INDEX_DEG B];
          w = unat (VERDANA_CHAR_WIDTH B);
          page0 = (if rotationAxis = ROLL then ANGLE_ROLL_PAGE else ANGLE_PITCH_PAGE);
          glyphs = concat (map (\<lambda>page. concat (map (\<lambda>character.
                     map (\<lambda>column. verdana_16ptNumbers B (unat (charIndexes ! character)) (w * page + column))
                       [0 ..< w]) [0 ..< ANGLE_NB_CHARS])) [0 ..< unat (VERDANA_NB_PAGES B)])
      in (ERR_SUCCESS,
          s\<lparr>limitColumns := [ANGLE_COLUMN, ANGLE_COLUMN + VERDANA_CHAR_WIDTH B * of_nat ANGLE_NB_CHARS - 1],
            limitPages := [page0, page0 + 1],
            size_ssd := of_nat (ANGLE_NB_CHARS * VERDANA_NB_BYTES_CHAR B),
            screenBuffer := glyphs @ drop (length glyphs) (screenBuffer s),
            state_ssd := SendingData\<rparr>))"

definition SSD1306_printReferentialIcon :: "bitmaps \<Rightarrow> referentialType_e \<Rightarrow> ssd \<Rightarrow> errorCode_u \<times> ssd" where
  "SSD1306_printReferentialIcon B type s =
     (let iconIterator = (if type = ABSOLUTE then absoluteReferentialIcon B else relativeReferentialIcon B);
          n = unat (REFERENCETYPE_NB_BYTES B)
      in (ERR_SUCCESS,
          s\<lparr>limitColumns := [REFTYPE_COLUMN B, REFTYPE_COLUMN B + REFERENCETYPE_NB_BYTES B],
            limitPages := [REFTYPE_PAGE, REFTYPE_PAGE],
            size_ssd := ucast (REFERENCETYPE_NB_BYTES B),
            screenBuffer := map iconIterator [0 ..< n] @ drop n (screenBuffer s),
            state_ssd := SendingData\<rparr>))"

definition SSD1306_printHoldIcon :: "bitmaps \<Rightarrow> 8 word \<Rightarrow> ssd \<Rightarrow> errorCode_u \<times> ssd" where
  "SSD1306_printHoldIcon B status s =
     (let n = unat (REFERENCETYPE_NB_BYTES B)
      in (ERR_SUCCESS,
          s\<lparr>limitColumns := [REFTYPE_COLUMN B - REFERENCETYPE_NB_BYTES B, REFTYPE_COLUMN B],
            limitPages := [REFTYPE_PAGE, REFTYPE_PAGE],
            size_ssd := ucast (REFERENCETYPE_NB_BYTES B),
            screenBuffer := map (\<lambda>i. if status \<noteq> 0 then holdIcon B i else 0) [0 ..< n]
                              @ drop n (screenBuffer s),
            state_ssd := SendingData\<rparr>))"

text \<open>
  The sub-rectangle staged for the next transfer, in bytes: columns times pages, one
  byte per column of a page.
\<close>

definition window_bytes :: "ssd \<Rightarrow> int" where
  "window_bytes s =
     (uint (limitColumns s ! 1) - uint (limitColumns s ! 0) + 1)
       * (uint (limitPages s ! 1) - uint (limitPages s ! 0) + 1)"

subsection \<open>State functions\<close>

definition initCommands :: "ssd1306_header \<Rightarrow> (8 word \<times> nat \<times> 8 word) list" where
  "initCommands R =
     [(R SCAN_DIRECTION_N1_0, 0, 0x00),
      (R HARDWARE_CONFIG, 1, R SSD_PIN_CONFIG_ALT OR R SSD_COM_REMAP_DISABLE),
      (R SEGMENT_REMAP_127, 0, 0x00),
      (R MEMORY_ADDR_MODE, 1, R SSD_HORIZONTAL_ADDR),
      (R CONTRAST_CONTROL, 1, R SSD_CONTRAST_HIGHEST),
      (R CLOCK_DIVIDE_RATIO, 1, R SSD_CLOCK_FREQ_MID OR R SSD_CLOCK_DIVIDER_1),
      (R CHG_PUMP_REGULATOR, 1, R SSD_ENABLE_CHG_PUMP),
      (R DISPLAY_ON, 0, 0x00)]"

text \<open>
  The loop of the display's \<open>stConfiguring\<close> over the rows still to send; a row is the
  command, its number of parameters and its parameter.
\<close>

fun init_loop :: "(8 word \<times> nat \<times> 8 word) list \<Rightarrow> ssd \<Rightarrow> errorCode_u option \<times> ssd" where
  "init_loop [] s = (None, s)"
| "init_loop (row # rows) s =
     (let (r, s1) = sendCommand (fst row) [snd (snd row)] (fst (snd row)) s
      in if isError r then (Some (pushErrorCode r (ssd_id INIT_ssd) 1), s1)
         else init_loop rows s1)"

definition stConfiguring_ssd :: "ssd1306_header \<Rightarrow> bitmaps \<Rightarrow> ssd \<Rightarrow> errorCode_u \<times> ssd" where
  "stConfiguring_ssd R B s =
     (let s0 = ll_ssd (LL_GPIO_SetOutputPin SSD1306_RES_Pin) (ll_ssd (LL_GPIO_ResetOutputPin SSD1306_RES_Pin) s)
      in case init_loop (initCommands R) s0 of
           (Some e, s1) \<Rightarrow> (e, s1)
         | (None, s1) \<Rightarrow>
             let (r, s2) = SSD1306drawBaseScreen B s1
             in if isError r then (pushErrorCode r (ssd_id INIT_ssd) 2, s2)
                else (ERR_SUCCESS, s2\<lparr>state_ssd := SendingData\<rparr>))"

definition stIdle :: "ssd \<Rightarrow> errorCode_u \<times> ssd" where
  "stIdle s = (ERR_SUCCESS, s)"

definition stSendingData :: "ssd1306_header \<Rightarrow> ssd \<Rightarrow> errorCode_u \<times> ssd" where
  "stSendingData R s =
     (let (r1, s1) = sendCommand (R COLUMN_ADDRESS) (limitColumns s) 2 s
      in if isError r1
         then (pushErrorCode r1 (ssd_id SENDING_DATA) 1, s1\<lparr>state_ssd := Idle\<rparr>)
         else
           let (r2, s2) = sendCommand (R PAGE_ADDRESS) (limitPages s1) 2 s1
           in if isError r2
              then (pushErrorCode r2 (ssd_id SENDING_DATA) 2, s2\<lparr>state_ssd := Idle\<rparr>)
              else
                let s3 = ll_ssd LL_SPI_Enable (setDataCommandGPIO DATA s2);
                    s4 = ll_ssd LL_DMA_EnableChannel
                           (ll_ssd (LL_DMA_SetDataLength (size_ssd s3))
                             (ll_ssd LL_DMA_ClearFlag_GI5 (ll_ssd LL_DMA_DisableChannel s3)));
                    s5 = ll_ssd LL_SPI_EnableDMAReq_TX (s4\<lparr>screenTimer_ms := SPI_TIMEOUT_MS\<rparr>)
                in (ERR_SUCCESS, s5\<lparr>state_ssd := WaitingForTXdone\<rparr>))"

text \<open>The label \<open>finalise\<close> of \<open>stWaitingForTXdone\<close>.\<close>

definition finalise :: "errorCode_u \<Rightarrow> ssd \<Rightarrow> errorCode_u \<times> ssd" where
  "finalise r s = (r, (ll_ssd LL_SPI_Disable (ll_ssd LL_DMA_DisableChannel s))\<lparr>state_ssd := Idle\<rparr>)"

definition stWaitingForTXdone :: "ssd \<Rightarrow> errorCode_u \<times> ssd" where
  "stWaitingForTXdone s =
     (if screenTimer_ms s = 0 then finalise (createErrorCode (ssd_id WAITING_DMA_RDY) 1 ERR_ERROR) s
      else if DMA_TE5 s then finalise (createErrorCode (ssd_id WAITING_DMA_RDY) 2 ERR_ERROR) s
      else if \<not> DMA_TC5 s then (ERR_SUCCESS, s)
      else finalise ERR_SUCCESS s)"

definition SSD1306update :: "ssd1306_header \<Rightarrow> bitmaps \<Rightarrow> ssd \<Rightarrow> errorCode_u \<times> ssd" where
  "SSD1306update R B s =
     (case state_ssd s of
        Idle \<Rightarrow> stIdle s
      | Configuring_ssd \<Rightarrow> stConfiguring_ssd R B s
      | SendingData \<Rightarrow> stSendingData R s
      | WaitingForTXdone \<Rightarrow> stWaitingForTXdone s)"

section \<open>Concrete inputs\<close>

text \<open>
  The register map of the ADXL345 data sheet that the driver's header comment refers to,
  as one valuation of the names of the absent header. It serves to run the driver on
  concrete inputs.
\<close>

fun adxl345_datasheet :: adxl345_header where
  "adxl345_datasheet DEVICE_ID = 0x00"
| "adxl345_datasheet BANDWIDTH_POWERMODE = 0x2C"
| "adxl345_datasheet POWER_CONTROL = 0x2D"
| "adxl345_datasheet INTERRUPT_ENABLE = 0x2E"
| "adxl345_datasheet DATA_FORMAT = 0x31"
| "adxl345_datasheet DATA_X0 = 0x32"
| "adxl345_datasheet FIFO_CONTROL = 0x38"
| "adxl345_datasheet ADXL_REGISTER_MAXNB = 0x39"
| "adxl345_datasheet ADXL_HIGH_RESERVED_REG = 0x1C"
| "adxl345_datasheet ADXL_WRITE = 0x00"
| "adxl345_datasheet ADXL_READ = 0x80"
| "adxl345_datasheet ADXL_SINGLE = 0x00"
| "adxl345_datasheet ADXL_MULTIPLE = 0x40"
| "adxl345_datasheet ADXL_DEVICE_ID = 0xE5"
| "adxl345_datasheet ADXL_NO_SELF_TEST = 0x00"
| "adxl345_datasheet ADXL_SELF_TEST = 0x80"
| "adxl345_datasheet ADXL_SPI_4WIRE = 0x00"
| "adxl345_datasheet ADXL_INT_ACTIV_LOW = 0x20"
| "adxl345_datasheet ADXL_13BIT_RESOL = 0x08"
| "adxl345_datasheet ADXL_RIGHT_JUSTIFY = 0x00"
| "adxl345_datasheet ADXL_RANGE_16G = 0x03"
| "adxl345_datasheet ADXL_MODE_BYPASS = 0x00"
| "adxl345_datasheet ADXL_MODE_FIFO = 0x40"
| "adxl345_datasheet ADXL_INT_MAP_INT1 = 0x00"
| "adxl345_datasheet ADXL_SAMPLES_32 = 32"
| "adxl345_datasheet ADXL_POWER_NORMAL = 0x00"
| "adxl345_datasheet ADXL_RATE_200HZ = 0x0B"
| "adxl345_datasheet ADXL_MEASURE_MODE = 0x08"
| "adxl345_datasheet ADXL_INT_WATERMARK = 0x02"

text \<open>
  The accelerometer's variables as their initialisers leave them, in front of a bus
  whose flags come at once, a device that shifts out zero bytes and an asserted
  watermark pin.
\<close>

definition adxl_power_up :: adxl where
  "adxl_power_up =
     \<lparr>adxlTimer_ms = INT_TIMEOUT_MS, adxlSPITimer_ms = 0, state = Startup,
      measurementsUpdated = 0, latestValues = (\<lambda>axis. 0), previousValues = (\<lambda>axis. 0),
      zeroValues = (\<lambda>axis. 0), result = ERR_SUCCESS, INT1_pin = False,
      spi_flag_ms = (\<lambda>k. 0), spi_waits = 0, spi_miso = (\<lambda>k. 0), spi_reads = 0,
      spi_log = [], elapsed_ms = 0\<rparr>"

text \<open>The display's variables as their initialisers leave them, with the same bus.\<close>

definition ssd_power_up :: ssd where
  "ssd_power_up =
     \<lparr>screenTimer_ms = 0, ssd1306SPITimer_ms = 0, state_ssd = Configuring_ssd,
      screenBuffer = replicate MAX_DATA_SIZE 0, limitColumns = [0, 0], limitPages = [0, 0],
      size_ssd = 0, DMA_TE5 = False, DMA_TC5 = False,
      ssd_flag_ms = (\<lambda>k. 0), ssd_waits = 0, ssd_log = [],
      elapsed_ms_ssd = 0\<rparr>"

text \<open>
  A device whose first sample is X = -2 (bytes \<open>0xFE\<close>, \<open>0xFF\<close>), Y = 0 and Z = 256
  (bytes \<open>0x00\<close>, \<open>0x01\<close>), and that shifts out zeros from then on. Read with the two
  bytes of an axis exchanged, the sample would be X = -257 and Z = 1.
\<close>

definition first_sample_then_zero :: "nat \<Rightarrow> 8 word" where
  "first_sample_then_zero k = (if k = 1 then 0xFE else if k = 2 then 0xFF else if k = 6 then 0x01 else 0)"

text \<open>Three axis values as an array indexed by the axis.\<close>

definition axes :: "32 word \<Rightarrow> 32 word \<Rightarrow> 32 word \<Rightarrow> axis_e \<Rightarrow> 32 word" where
  "axes x y z axis = (case axis of X_AXIS \<Rightarrow> x | Y_AXIS \<Rightarrow> y | Z_AXIS \<Rightarrow> z)"

text \<open>
  The command bytes of the SSD1306 data sheet, as one valuation of the names of the
  absent header, and a font and icons of blank glyphs with the dimensions of a 14-column,
  two-page font and 8-byte icons.
\<close>

fun ssd1306_datasheet :: ssd1306_header where
  "ssd1306_datasheet SCAN_DIRECTION_N1_0 = 0xC8"
| "ssd1306_datasheet HARDWARE_CONFIG = 0xDA"
| "ssd1306_datasheet SEGMENT_REMAP_127 = 0xA1"
| "ssd1306_datasheet MEMORY_ADDR_MODE = 0x20"
| "ssd1306_datasheet CONTRAST_CONTROL = 0x81"
| "ssd1306_datasheet CLOCK_DIVIDE_RATIO = 0xD5"
| "ssd1306_datasheet CHG_PUMP_REGULATOR = 0x8D"
| "ssd1306_datasheet DISPLAY_ON = 0xAF"
| "ssd1306_datasheet COLUMN_ADDRESS = 0x21"
| "ssd1306_datasheet PAGE_ADDRESS = 0x22"
| "ssd1306_datasheet SSD_PIN_CONFIG_ALT = 0x10"
| "ssd1306_datasheet SSD_COM_REMAP_DISABLE = 0x00"
| "ssd1306_datasheet SSD_HORIZONTAL_ADDR = 0x00"
| "ssd1306_datasheet SSD_CONTRAST_HIGHEST = 0xFF"
| "ssd1306_datasheet SSD_CLOCK_FREQ_MID = 0x80"
| "ssd1306_datasheet SSD_CLOCK_DIVIDER_1 = 0x00"
| "ssd1306_datasheet SSD_ENABLE_CHG_PUMP = 0x14"

definition blank_bitmaps :: bitmaps where
  "blank_bitmaps =
     \<lparr>VERDANA_CHAR_WIDTH = 14, VERDANA_NB_PAGES = 2, VERDANA_NB_BYTES_CHAR = 28,
      INDEX_PLUS = 10, INDEX_MINUS = 11, INDEX_DOT = 12, INDEX_DEG = 13,
      verdana_16ptNumbers = (\<lambda>character column. 0), REFERENCETYPE_NB_BYTES = 8,
      absoluteReferentialIcon = (\<lambda>i. 0), relativeReferentialIcon = (\<lambda>i. 0),
      holdIcon = (\<lambda>i. 0), arrowsIcon_32px = (\<lambda>i. 0)\<rparr>"

text \<open>A bus that answers during the first display command and hangs from the second on.\<close>

definition second_command_hangs :: "nat \<Rightarrow> nat" where
  "second_command_hangs k = (if k < 3 then 0 else SPI_TIMEOUT_MS)"

section \<open>Auxiliary notions for the proofs\<close>

text \<open>
  What a bus transaction of the accelerometer leaves alone: everything but the log, the
  counters of the collaborators and the two countdowns; it starts no new transaction,
  the bus countdown does not grow, and what it loses is the time gone by.
\<close>

definition bus_frame :: "adxl \<Rightarrow> adxl \<Rightarrow> bool" where
  "bus_frame s s' =
     (state s' = state s \<and> measurementsUpdated s' = measurementsUpdated s
      \<and> latestValues s' = latestValues s \<and> previousValues s' = previousValues s
      \<and> zeroValues s' = zeroValues s \<and> result s' = result s \<and> INT1_pin s' = INT1_pin s
      \<and> spi_flag_ms s' = spi_flag_ms s \<and> spi_miso s' = spi_miso s
      \<and> nb_transactions (spi_log s') = nb_transactions (spi_log s)
      \<and> adxlSPITimer_ms s' \<le> adxlSPITimer_ms s
      \<and> elapsed_ms s' + adxlSPITimer_ms s' = elapsed_ms s + adxlSPITimer_ms s)"

section \<open>The bus primitives of the accelerometer\<close>

lemma ll_simps [simp]:
  "adxlTimer_ms (ll c s) = adxlTimer_ms s"
  "adxlSPITimer_ms (ll c s) = adxlSPITimer_ms s"
  "state (ll c s) = state s"
  "measurementsUpdated (ll c s) = measurementsUpdated s"
  "latestValues (ll c s) = latestValues s"
  "previousValues (ll c s) = previousValues s"
  "zeroValues (ll c s) = zeroValues s"
  "result (ll c s) = result s"
  "INT1_pin (ll c s) = INT1_pin s"
  "spi_flag_ms (ll c s) = spi_flag_ms s"
  "spi_waits (ll c s) = spi_waits s"
  "spi_miso (ll c s) = spi_miso s"
  "spi_reads (ll c s) = spi_reads s"
  "spi_log (ll c s) = c # spi_log s"
  "elapsed_ms (ll c s) = elapsed_ms s"
  by (simp_all add: ll_def)

lemma spin_simps [simp]:
  "adxlTimer_ms (spin s) = adxlTimer_ms s - min (spi_flag_ms s (spi_waits s)) (adxlSPITimer_ms s)"
  "adxlSPITimer_ms (spin s) = adxlSPITimer_ms s - spi_flag_ms s (spi_waits s)"
  "state (spin s) = state s"
  "measurementsUpdated (spin s) = measurementsUpdated s"
  "latestValues (spin s) = latestValues s"
  "previousValues (spin s) = previousValues s"
  "zeroValues (spin s) = zeroValues s"
  "result (spin s) = result s"
  "INT1_pin (spin s) = INT1_pin s"
  "spi_flag_ms (spin s) = spi_flag_ms s"
  "spi_waits (spin s) = Suc (spi_waits s)"
  "spi_miso (spin s) = spi_miso s"
  "spi_reads (spin s) = spi_reads s"
  "spi_log (spin s) = spi_log s"
  "elapsed_ms (spin s) = elapsed_ms s + min (spi_flag_ms s (spi_waits s)) (adxlSPITimer_ms s)"
  by (simp_all add: spin_def tick_def)

lemma receiveData8_simps [simp]:
  "fst (receiveData8 s) = spi_miso s (spi_reads s)"
  "adxlTimer_ms (snd (receiveData8 s)) = adxlTimer_ms s"
  "adxlSPITimer_ms (snd (receiveData8 s)) = adxlSPITimer_ms s"
  "state (snd (receiveData8 s)) = state s"
  "measurementsUpdated (snd (receiveData8 s)) = measurementsUpdated s"
  "latestValues (snd (receiveData8 s)) = latestValues s"
  "previousValues (snd (receiveData8 s)) = previousValues s"
  "zeroValues (snd (receiveData8 s)) = zeroValues s"
  "result (snd (receiveData8 s)) = result s"
  "INT1_pin (snd (receiveData8 s)) = INT1_pin s"
  "spi_flag_ms (snd (receiveData8 s)) = spi_flag_ms s"
  "spi_waits (snd (receiveData8 s)) = spi_waits s"
  "spi_miso (snd (receiveData8 s)) = spi_miso s"
  "spi_reads (snd (receiveData8 s)) = Suc (spi_reads s)"
  "spi_log (snd (receiveData8 s)) = LL_SPI_ReceiveData8 (spi_miso s (spi_reads s)) # spi_log s"
  "elapsed_ms (snd (receiveData8 s)) = elapsed_ms s"
  by (simp_all add: receiveData8_def Let_def)

lemma writeRegister_rejected:
  "registerNumber > K ADXL_REGISTER_MAXNB \<or> registerNumber - 1 < K ADXL_HIGH_RESERVED_REG \<Longrightarrow>
   writeRegister K registerNumber val s = (createErrorCode (adxl_id WRITE_REGISTER) 1 ERR_WARNING, s)"
  by (simp add: writeRegister_def)

lemma writeRegister_frame [simp]:
  "state (snd (writeRegister K reg v s)) = state s"
  "measurementsUpdated (snd (writeRegister K reg v s)) = measurementsUpdated s"
  "latestValues (snd (writeRegister K reg v s)) = latestValues s"
  "previousValues (snd (writeRegister K reg v s)) = previousValues s"
  "zeroValues (snd (writeRegister K reg v s)) = zeroValues s"
  "result (snd (writeRegister K reg v s)) = result s"
  "INT1_pin (snd (writeRegister K reg v s)) = INT1_pin s"
  "spi_flag_ms (snd (writeRegister K reg v s)) = spi_flag_ms s"
  "spi_miso (snd (writeRegister K reg v s)) = spi_miso s"
  "spi_reads (snd (writeRegister K reg v s)) = spi_reads s"
  by (simp_all add: writeRegister_def Let_def)

lemma writeRegister_count:
  "nb_transactions (spi_log (snd (writeRegister K reg v s))) =
     nb_transactions (spi_log s)
       + (if reg > K ADXL_REGISTER_MAXNB \<or> reg - 1 < K ADXL_HIGH_RESERVED_REG then 0 else 1)"
  by (simp add: writeRegister_def Let_def)


lemma read_byte_frame [simp]:
  "state (snd (read_byte it val s)) = state s"
  "measurementsUpdated (snd (read_byte it val s)) = measurementsUpdated s"
  "latestValues (snd (read_byte it val s)) = latestValues s"
  "previousValues (snd (read_byte it val s)) = previousValues s"
  "zeroValues (snd (read_byte it val s)) = zeroValues s"
  "result (snd (read_byte it val s)) = result s"
  "INT1_pin (snd (read_byte it val s)) = INT1_pin s"
  "spi_flag_ms (snd (read_byte it val s)) = spi_flag_ms s"
  "spi_miso (snd (read_byte it val s)) = spi_miso s"
  "spi_reads (snd (read_byte it val s)) = Suc (spi_reads s)"
  "spi_waits (snd (read_byte it val s)) = Suc (spi_waits s)"
  "nb_transactions (spi_log (snd (read_byte it val s))) = nb_transactions (spi_log s)"
  "adxlSPITimer_ms (snd (read_byte it val s)) = adxlSPITimer_ms s - spi_flag_ms s (spi_waits s)"
  "fst (read_byte it val s) = val[it := spi_miso s (spi_reads s)]"
  "elapsed_ms (snd (read_byte it val s))
     = elapsed_ms s + min (spi_flag_ms s (spi_waits s)) (adxlSPITimer_ms s)"
  by (simp_all add: read_byte_def Let_def split_beta)

lemma read_loop_unfold:
  "read_loop n it val s =
     (if n - 1 \<noteq> 0 \<and> adxlSPITimer_ms (snd (read_byte it val s)) \<noteq> 0
      then read_loop (n - 1) (Suc it) (fst (read_byte it val s)) (snd (read_byte it val s))
      else read_byte it val s)"
  by (subst read_loop.simps) (simp add: split_beta prod_eq_iff)

lemma bus_frame_trans: "bus_frame a b \<Longrightarrow> bus_frame b c \<Longrightarrow> bus_frame a c"
  by (simp add: bus_frame_def)

lemma read_byte_bus_frame: "bus_frame s (snd (read_byte it val s))"
  by (auto simp add: bus_frame_def min_def)

lemma read_loop_bus_frame:
  "bus_frame s (snd (read_loop n it val s)) \<and> length (fst (read_loop n it val s)) = length val"
proof (induction n it val s rule: read_loop.induct)
  case (1 n it val s)
  let ?v = "fst (read_byte it val s)" and ?s = "snd (read_byte it val s)"
  show ?case
  proof (cases "n - 1 \<noteq> 0 \<and> adxlSPITimer_ms ?s \<noteq> 0")
    case True
    then have eq: "read_loop n it val s = read_loop (n - 1) (Suc it) ?v ?s"
      by (subst read_loop_unfold) simp
    have "bus_frame ?s (snd (read_loop n it val s)) \<and> length (fst (read_loop n it val s)) = length ?v"
      using "1.IH" [OF refl prod.collapse True] unfolding eq .
    then show ?thesis using bus_frame_trans [OF read_byte_bus_frame, of it val s] by auto
  next
    case False
    then have eq: "read_loop n it val s = read_byte it val s"
      by (subst read_loop_unfold) auto
    show ?thesis unfolding eq by (simp add: read_byte_bus_frame)
  qed
qed

lemma read_loop_frame [simp]:
  "state (snd (read_loop n it val s)) = state s"
  "measurementsUpdated (snd (read_loop n it val s)) = measurementsUpdated s"
  "latestValues (snd (read_loop n it val s)) = latestValues s"
  "previousValues (snd (read_loop n it val s)) = previousValues s"
  "zeroValues (snd (read_loop n it val s)) = zeroValues s"
  "result (snd (read_loop n it val s)) = result s"
  "INT1_pin (snd (read_loop n it val s)) = INT1_pin s"
  "spi_flag_ms (snd (read_loop n it val s)) = spi_flag_ms s"
  "spi_miso (snd (read_loop n it val s)) = spi_miso s"
  "nb_transactions (spi_log (snd (read_loop n it val s))) = nb_transactions (spi_log s)"
  "length (fst (read_loop n it val s)) = length val"
  using read_loop_bus_frame [of s n it val] by (simp_all add: bus_frame_def)

lemma read_loop_timer: "adxlSPITimer_ms (snd (read_loop n it val s)) \<le> adxlSPITimer_ms s"
  using read_loop_bus_frame [of s n it val] by (simp add: bus_frame_def)

lemma read_loop_success:
  "adxlSPITimer_ms (snd (read_loop n it val s)) \<noteq> 0 \<Longrightarrow> 0 < n \<Longrightarrow>
     spi_reads (snd (read_loop n it val s)) = spi_reads s + n
     \<and> (\<forall>k<it. fst (read_loop n it val s) ! k = val ! k)
     \<and> (\<forall>i<n. it + i < length val \<longrightarrow> fst (read_loop n it val s) ! (it + i) = spi_miso s (spi_reads s + i))"
proof (induction n it val s rule: read_loop.induct)
  case (1 n it val s)
  let ?v = "fst (read_byte it val s)" and ?s = "snd (read_byte it val s)"
  show ?case
  proof (cases "n - 1 \<noteq> 0 \<and> adxlSPITimer_ms ?s \<noteq> 0")
    case True
    then have eq: "read_loop n it val s = read_loop (n - 1) (Suc it) ?v ?s"
      by (subst read_loop_unfold) simp
    have ih: "spi_reads (snd (read_loop n it val s)) = spi_reads ?s + (n - 1)
       \<and> (\<forall>k<Suc it. fst (read_loop n it val s) ! k = ?v ! k)
       \<and> (\<forall>i<n - 1. Suc it + i < length ?v \<longrightarrow>
             fst (read_loop n it val s) ! (Suc it + i) = spi_miso ?s (spi_reads ?s + i))"
      using "1.IH" [OF refl prod.collapse True] "1.prems" True unfolding eq by simp
    have a: "spi_reads (snd (read_loop n it val s)) = spi_reads s + n" using ih True by simp
    have b: "\<forall>k<it. fst (read_loop n it val s) ! k = val ! k" using ih by simp
    have c: "fst (read_loop n it val s) ! (it + i) = spi_miso s (spi_reads s + i)"
      if "i < n" "it + i < length val" for i
    proof (cases i)
      case 0
      then show ?thesis using ih that by simp
    next
      case (Suc j)
      then show ?thesis using ih that by simp
    qed
    from a b c show ?thesis by blast
  next
    case False
    then have eq: "read_loop n it val s = read_byte it val s"
      by (subst read_loop_unfold) auto
    from False "1.prems" have n1: "n = 1" unfolding eq by simp
    show ?thesis unfolding eq using n1 by simp
  qed
qed


lemma isError_simps [simp]:
  "isError ERR_SUCCESS = False"
  "isError (createErrorCode f d lvl) = (lvl \<noteq> ERR_NONE)"
  "isError (pushErrorCode r f d) = isError r"
  by (simp_all add: isError_def ERR_SUCCESS_def createErrorCode_def pushErrorCode_def)

lemma readRegisters_zero: "readRegisters K reg val 0 s = (ERR_SUCCESS, val, s)"
  by (simp add: readRegisters_def)

lemma readRegisters_rejected:
  "n \<noteq> 0 \<Longrightarrow> reg > K ADXL_REGISTER_MAXNB \<Longrightarrow>
   readRegisters K reg val n s = (createErrorCode (adxl_id READ_REGISTERS) 1 ERR_WARNING, val, s)"
  by (simp add: readRegisters_def)

lemma readRegisters_frame [simp]:
  "state (snd (snd (readRegisters K reg val n s))) = state s"
  "measurementsUpdated (snd (snd (readRegisters K reg val n s))) = measurementsUpdated s"
  "latestValues (snd (snd (readRegisters K reg val n s))) = latestValues s"
  "previousValues (snd (snd (readRegisters K reg val n s))) = previousValues s"
  "zeroValues (snd (snd (readRegisters K reg val n s))) = zeroValues s"
  "result (snd (snd (readRegisters K reg val n s))) = result s"
  "INT1_pin (snd (snd (readRegisters K reg val n s))) = INT1_pin s"
  "spi_flag_ms (snd (snd (readRegisters K reg val n s))) = spi_flag_ms s"
  "spi_miso (snd (snd (readRegisters K reg val n s))) = spi_miso s"
  "length (fst (snd (readRegisters K reg val n s))) = length val"
  by (simp_all add: readRegisters_def Let_def split_beta)

lemma readRegisters_count:
  "nb_transactions (spi_log (snd (snd (readRegisters K reg val n s)))) =
     nb_transactions (spi_log s) + (if n = 0 \<or> reg > K ADXL_REGISTER_MAXNB then 0 else 1)"
  by (simp add: readRegisters_def Let_def split_beta)

lemma readRegisters_success:
  assumes ok: "\<not> isError (fst (readRegisters K reg val n s))" and n: "0 < n"
  shows "spi_reads (snd (snd (readRegisters K reg val n s))) = spi_reads s + n + 1
     \<and> (\<forall>i<n. i < length val \<longrightarrow>
           fst (snd (readRegisters K reg val n s)) ! i = spi_miso s (spi_reads s + 1 + i))"
proof -
  let ?s1 = "ll LL_SPI_Enable (s\<lparr>adxlSPITimer_ms := SPI_TIMEOUT_MS\<rparr>)"
  let ?s2 = "spin (ll (LL_SPI_TransmitData8 (K ADXL_READ OR K ADXL_MULTIPLE OR reg)) ?s1)"
  let ?s3 = "snd (receiveData8 ?s2)"
  let ?v3 = "val[0 := fst (receiveData8 ?s2)]"
  let ?L = "read_loop n 0 ?v3 ?s3"
  from ok n have r: "\<not> reg > K ADXL_REGISTER_MAXNB"
    by (auto simp add: readRegisters_def)
  from ok n r have t: "adxlSPITimer_ms (snd ?L) \<noteq> 0"
    by (auto simp add: readRegisters_def Let_def split_beta split: if_splits)
  from n r have eq: "fst (snd (readRegisters K reg val n s)) = fst ?L"
      "spi_reads (snd (snd (readRegisters K reg val n s))) = spi_reads (snd ?L)"
    by (simp_all add: readRegisters_def Let_def split_beta)
  from read_loop_success [OF t n]
  show ?thesis unfolding eq by simp
qed


lemma read_loop_responsive:
  "\<forall>k. spi_flag_ms s k = 0 \<Longrightarrow> adxlSPITimer_ms (snd (read_loop n it val s)) = adxlSPITimer_ms s"
proof (induction n it val s rule: read_loop.induct)
  case (1 n it val s)
  let ?v = "fst (read_byte it val s)" and ?s = "snd (read_byte it val s)"
  have t: "adxlSPITimer_ms ?s = adxlSPITimer_ms s" using "1.prems" by simp
  show ?case
  proof (cases "n - 1 \<noteq> 0 \<and> adxlSPITimer_ms ?s \<noteq> 0")
    case True
    then have eq: "read_loop n it val s = read_loop (n - 1) (Suc it) ?v ?s"
      by (subst read_loop_unfold) simp
    show ?thesis
      using "1.IH" [OF refl prod.collapse True] "1.prems" t unfolding eq by simp
  next
    case False
    then have eq: "read_loop n it val s = read_byte it val s"
      by (subst read_loop_unfold) auto
    show ?thesis unfolding eq using t .
  qed
qed

lemma readRegisters_responsive:
  assumes "\<forall>k. spi_flag_ms s k = 0" "reg \<le> K ADXL_REGISTER_MAXNB"
  shows "fst (readRegisters K reg val n s) = ERR_SUCCESS"
  using assms
  by (simp add: readRegisters_def Let_def split_beta read_loop_responsive SPI_TIMEOUT_MS_def not_less [symmetric])

lemma writeRegister_responsive:
  assumes "\<forall>k. spi_flag_ms s k = 0" "reg \<le> K ADXL_REGISTER_MAXNB" "\<not> reg - 1 < K ADXL_HIGH_RESERVED_REG"
  shows "fst (writeRegister K reg v s) = ERR_SUCCESS"
  using assms
  by (simp add: writeRegister_def Let_def SPI_TIMEOUT_MS_def not_less [symmetric])

lemma integrate_loop_Suc:
  "integrate_loop K (Suc n) buffer vals s =
     (if isError (fst (readRegisters K (K DATA_X0) buffer 6 s))
      then (Some (pushErrorCode (fst (readRegisters K (K DATA_X0) buffer 6 s)) (adxl_id INTEGRATE) 1), vals,
            (snd (snd (readRegisters K (K DATA_X0) buffer 6 s)))
              \<lparr>result := fst (readRegisters K (K DATA_X0) buffer 6 s), state := Error\<rparr>)
      else integrate_loop K n (fst (snd (readRegisters K (K DATA_X0) buffer 6 s)))
             (\<lambda>axis. vals axis + scast (twoComplement (drop (push_bit 1 (axis_index axis))
                                              (fst (snd (readRegisters K (K DATA_X0) buffer 6 s))))))
             ((snd (snd (readRegisters K (K DATA_X0) buffer 6 s)))\<lparr>result := fst (readRegisters K (K DATA_X0) buffer 6 s)\<rparr>))"
  by (simp add: Let_def split_beta ADXL_NB_DATA_REGISTERS_def)

lemma burst_sample:
  assumes ok: "\<not> isError (fst (readRegisters K reg buffer 6 s))" and len: "length buffer = 6"
  shows "twoComplement (drop (push_bit 1 (axis_index axis)) (fst (snd (readRegisters K reg buffer 6 s))))
           = fifo_sample s 0 axis"
proof -
  let ?b = "fst (snd (readRegisters K reg buffer 6 s))"
  have b: "?b ! i = spi_miso s (spi_reads s + 1 + i)" if "i < 6" for i
    using readRegisters_success [OF ok] len that by simp
  have e: "4 + spi_reads s = Suc (Suc (Suc (Suc (spi_reads s))))" by simp
  show ?thesis
    by (cases axis) (simp_all add: twoComplement_def fifo_sample_def axis_index_def len b e)
qed


section \<open>FIFO integration\<close>

declare integrate_loop.simps(2) [simp del]

lemma fifo_sample_shift:
  "spi_miso s' = spi_miso s \<Longrightarrow> spi_reads s' = spi_reads s + 7 \<Longrightarrow>
   fifo_sample s' j axis = fifo_sample s (Suc j) axis"
  by (simp add: fifo_sample_def add.assoc add.left_commute)

lemma integrate_loop_frame:
  "measurementsUpdated (snd (snd (integrate_loop K n buffer vals s))) = measurementsUpdated s
   \<and> latestValues (snd (snd (integrate_loop K n buffer vals s))) = latestValues s
   \<and> previousValues (snd (snd (integrate_loop K n buffer vals s))) = previousValues s
   \<and> zeroValues (snd (snd (integrate_loop K n buffer vals s))) = zeroValues s
   \<and> INT1_pin (snd (snd (integrate_loop K n buffer vals s))) = INT1_pin s
   \<and> spi_flag_ms (snd (snd (integrate_loop K n buffer vals s))) = spi_flag_ms s
   \<and> spi_miso (snd (snd (integrate_loop K n buffer vals s))) = spi_miso s
   \<and> nb_transactions (spi_log (snd (snd (integrate_loop K n buffer vals s))))
        \<le> nb_transactions (spi_log s) + n
   \<and> state (snd (snd (integrate_loop K n buffer vals s)))
        = (if fst (integrate_loop K n buffer vals s) = None then state s else Error)"
proof (induction n arbitrary: buffer vals s)
  case 0
  show ?case by simp
next
  case (Suc n)
  let ?rr = "readRegisters K (K DATA_X0) buffer 6 s"
  show ?case
  proof (cases "isError (fst ?rr)")
    case True
    then show ?thesis
      by (simp add: integrate_loop_Suc readRegisters_count)
  next
    case False
    let ?b = "fst (snd ?rr)"
    let ?v = "\<lambda>axis. vals axis + scast (twoComplement (drop (push_bit 1 (axis_index axis)) ?b))"
    let ?s2 = "(snd (snd ?rr))\<lparr>result := fst ?rr\<rparr>"
    have eq: "integrate_loop K (Suc n) buffer vals s = integrate_loop K n ?b ?v ?s2"
      using False by (simp add: integrate_loop_Suc)
    have c: "nb_transactions (spi_log ?s2) \<le> nb_transactions (spi_log s) + 1"
      by (simp add: readRegisters_count)
    show ?thesis
      unfolding eq using Suc.IH [of ?b ?v ?s2] c by simp
  qed
qed

lemma integrate_loop_error:
  "fst (integrate_loop K n buffer vals s) = Some e \<Longrightarrow> isError e"
proof (induction n arbitrary: buffer vals s)
  case 0
  then show ?case by simp
next
  case (Suc n)
  then show ?case
    by (auto simp add: integrate_loop_Suc split: if_splits)
qed

lemma integrate_loop_success:
  assumes "fst (integrate_loop K n buffer vals s) = None" and "length buffer = 6"
  shows "fst (snd (integrate_loop K n buffer vals s)) axis
           = vals axis + of_int (\<Sum>j<n. sint (fifo_sample s j axis))"
  using assms
proof (induction n arbitrary: buffer vals s)
  case 0
  show ?case by simp
next
  case (Suc n)
  let ?rr = "readRegisters K (K DATA_X0) buffer 6 s"
  have ok: "\<not> isError (fst ?rr)"
    using Suc.prems(1) by (auto simp add: integrate_loop_Suc split: if_splits)
  let ?b = "fst (snd ?rr)"
  let ?v = "\<lambda>axis. vals axis + scast (twoComplement (drop (push_bit 1 (axis_index axis)) ?b))"
  let ?s2 = "(snd (snd ?rr))\<lparr>result := fst ?rr\<rparr>"
  have eq: "integrate_loop K (Suc n) buffer vals s = integrate_loop K n ?b ?v ?s2"
    using ok by (simp add: integrate_loop_Suc)
  have len: "length ?b = 6" using Suc.prems(2) by simp
  have none: "fst (integrate_loop K n ?b ?v ?s2) = None" using Suc.prems(1) unfolding eq .
  have rd: "spi_reads ?s2 = spi_reads s + 7" "spi_miso ?s2 = spi_miso s"
    using readRegisters_success [OF ok] by simp_all
  have sh: "fifo_sample ?s2 j axis = fifo_sample s (Suc j) axis" for j
    using fifo_sample_shift [of ?s2 s j axis] rd by simp
  have "fst (snd (integrate_loop K (Suc n) buffer vals s)) axis
          = ?v axis + of_int (\<Sum>j<n. sint (fifo_sample ?s2 j axis))"
    unfolding eq using Suc.IH [OF none len] .
  also have "\<dots> = vals axis + scast (fifo_sample s 0 axis)
                     + of_int (\<Sum>j<n. sint (fifo_sample s (Suc j) axis))"
    using burst_sample [OF ok Suc.prems(2), of axis] sh by simp
  also have "\<dots> = vals axis + of_int (\<Sum>j<Suc n. sint (fifo_sample s j axis))"
    by (simp add: sum.lessThan_Suc_shift del: sum.lessThan_Suc)
  finally show ?case .
qed

lemma integrate_loop_responsive:
  assumes "\<forall>k. spi_flag_ms s k = 0" and "K DATA_X0 \<le> K ADXL_REGISTER_MAXNB"
  shows "fst (integrate_loop K n buffer vals s) = None"
  using assms
proof (induction n arbitrary: buffer vals s)
  case 0
  show ?case by simp
next
  case (Suc n)
  have ok: "fst (readRegisters K (K DATA_X0) buffer 6 s) = ERR_SUCCESS"
    using readRegisters_responsive [of s "K DATA_X0" K buffer 6] Suc.prems by simp
  show ?case
    using Suc.IH Suc.prems by (simp add: integrate_loop_Suc ok)
qed

lemma sum_sint16_bounds:
  "- (int n * 32768) \<le> (\<Sum>j<n. sint (f j :: 16 word)) \<and> (\<Sum>j<n. sint (f j)) \<le> int n * 32768"
proof (induction n)
  case 0
  show ?case by simp
next
  case (Suc n)
  have "- 32768 \<le> sint (f n)" "sint (f n) < 32768"
    using sint_ge [of "f n"] sint_lt [of "f n"] by simp_all
  with Suc show ?case by (simp add: algebra_simps)
qed

lemma sint_of_int_sum:
  assumes "(n::nat) \<le> 255"
  shows "sint (of_int (\<Sum>j<n. sint (f j :: 16 word)) :: 32 word) = (\<Sum>j<n. sint (f j))"
proof -
  have "int n * 32768 \<le> 255 * 32768" using assms by simp
  with sum_sint16_bounds [of n f]
  have "- (2 ^ 31) \<le> (\<Sum>j<n. sint (f j))" "(\<Sum>j<n. sint (f j)) < 2 ^ 31" by simp_all
  then have "signed_take_bit (LENGTH(32) - 1) (\<Sum>j<n. sint (f j)) = (\<Sum>j<n. sint (f j))"
    by (intro signed_take_bit_int_eq_self) simp_all
  then show ?thesis
    by (simp only: sint_sbintrunc')
qed

lemma integrateFIFO_frame:
  "measurementsUpdated (snd (snd (integrateFIFO K s))) = measurementsUpdated s
   \<and> latestValues (snd (snd (integrateFIFO K s))) = latestValues s
   \<and> previousValues (snd (snd (integrateFIFO K s))) = previousValues s
   \<and> zeroValues (snd (snd (integrateFIFO K s))) = zeroValues s
   \<and> INT1_pin (snd (snd (integrateFIFO K s))) = INT1_pin s
   \<and> spi_flag_ms (snd (snd (integrateFIFO K s))) = spi_flag_ms s
   \<and> spi_miso (snd (snd (integrateFIFO K s))) = spi_miso s
   \<and> nb_transactions (spi_log (snd (snd (integrateFIFO K s))))
        \<le> nb_transactions (spi_log s) + unat (ADXL_AVG_SAMPLES K)
   \<and> state (snd (snd (integrateFIFO K s)))
        = (if isError (fst (integrateFIFO K s)) then Error else state s)"
proof -
  let ?L = "integrate_loop K (unat (ADXL_AVG_SAMPLES K)) (replicate ADXL_NB_DATA_REGISTERS 0) (\<lambda>axis. 0) s"
  note f = integrate_loop_frame [of K "unat (ADXL_AVG_SAMPLES K)" "replicate ADXL_NB_DATA_REGISTERS 0" "\<lambda>axis. 0" s]
  show ?thesis
  proof (cases "fst ?L")
    case None
    then have "integrateFIFO K s = (ERR_SUCCESS, (\<lambda>axis. signed_drop_bit ADXL_AVG_SHIFT (fst (snd ?L) axis)), snd (snd ?L))"
      by (simp add: integrateFIFO_def split_beta)
    then show ?thesis using f None by simp
  next
    case (Some e)
    then have eq: "integrateFIFO K s = (e, fst (snd ?L), snd (snd ?L))"
      by (simp add: integrateFIFO_def split_beta)
    show ?thesis using f Some integrate_loop_error [OF Some] unfolding eq by simp
  qed
qed

lemma static_assert_AVG_iff:
  "static_assert_AVG c ADXL_AVG_SHIFT = (32 \<le> c \<and> c < 64)"
proof -
  have "(drop_bit 5 c = 1) = (unat (drop_bit 5 c) = 1)"
    by (simp add: word_unat_eq_iff)
  also have "\<dots> = (unat c div 32 = 1)"
    by (simp add: unat_drop_bit_eq drop_bit_eq_div unat_div_distrib)
  also have "\<dots> = (32 \<le> unat c \<and> unat c < 64)"
    by auto
  also have "\<dots> = (32 \<le> c \<and> c < 64)"
    by (simp add: word_le_nat_alt word_less_nat_alt)
  finally show ?thesis by (simp add: static_assert_AVG_def ADXL_AVG_SHIFT_def)
qed

lemma integrateFIFO_value:
  assumes ok: "\<not> isError (fst (integrateFIFO K s))"
  shows "sint (fst (snd (integrateFIFO K s)) axis)
           = (\<Sum>j<unat (ADXL_AVG_SAMPLES K). sint (fifo_sample s j axis)) div 2 ^ ADXL_AVG_SHIFT"
proof -
  let ?n = "unat (ADXL_AVG_SAMPLES K)"
  let ?L = "integrate_loop K ?n (replicate ADXL_NB_DATA_REGISTERS 0) (\<lambda>axis. 0) s"
  have none: "fst ?L = None"
  proof (cases "fst ?L")
    case None
    then show ?thesis .
  next
    case (Some e)
    then have "fst (integrateFIFO K s) = e" by (simp add: integrateFIFO_def split_beta)
    with integrate_loop_error [OF Some] ok show ?thesis by simp
  qed
  then have eq: "fst (snd (integrateFIFO K s)) axis = signed_drop_bit ADXL_AVG_SHIFT (fst (snd ?L) axis)"
    by (simp add: integrateFIFO_def split_beta)
  have "?n < 2 ^ LENGTH(8)" by (rule unsigned_less)
  then have n: "?n \<le> 255" by simp
  have "fst (snd ?L) axis = of_int (\<Sum>j<?n. sint (fifo_sample s j axis))"
    using integrate_loop_success [OF none, of axis] by (simp add: ADXL_NB_DATA_REGISTERS_def)
  then have "sint (fst (snd ?L) axis) = (\<Sum>j<?n. sint (fifo_sample s j axis))"
    using sint_of_int_sum [OF n, of "\<lambda>j. fifo_sample s j axis"] by simp
  then show ?thesis
    unfolding eq by (simp add: sint_signed_drop_bit_eq drop_bit_eq_div)
qed

lemma integrateFIFO_shift:
  assumes ok: "\<not> isError (fst (integrateFIFO K s))"
  shows "fst (snd (integrateFIFO K s)) axis
           = signed_drop_bit ADXL_AVG_SHIFT
               (of_int (\<Sum>j<unat (ADXL_AVG_SAMPLES K). sint (fifo_sample s j axis)))"
proof -
  let ?n = "unat (ADXL_AVG_SAMPLES K)"
  let ?L = "integrate_loop K ?n (replicate ADXL_NB_DATA_REGISTERS 0) (\<lambda>axis. 0) s"
  have none: "fst ?L = None"
  proof (cases "fst ?L")
    case None
    then show ?thesis .
  next
    case (Some e)
    then have "fst (integrateFIFO K s) = e" by (simp add: integrateFIFO_def split_beta)
    with integrate_loop_error [OF Some] ok show ?thesis by simp
  qed
  then have eq: "fst (snd (integrateFIFO K s)) axis = signed_drop_bit ADXL_AVG_SHIFT (fst (snd ?L) axis)"
    by (simp add: integrateFIFO_def split_beta)
  have "fst (snd ?L) axis = of_int (\<Sum>j<?n. sint (fifo_sample s j axis))"
    using integrate_loop_success [OF none, of axis] by (simp add: ADXL_NB_DATA_REGISTERS_def)
  then show ?thesis unfolding eq by simp
qed

text \<open>
  The code's reassembly of two bytes is the little-endian two's-complement number of the
  spec: the shifted high byte and the low byte have no bit in common, so that the
  \<open>OR\<close> is a sum, and reading the 16 bits as signed subtracts \<open>65536\<close> from bit 15 on.
\<close>

lemma uint_twoComplement: "uint (twoComplement [low, high]) = uint low + 256 * uint high"
proof -
  have b: "uint high < 256" "uint low < 256" "0 \<le> uint high" "0 \<le> uint low"
    using uint_bounded [of high] uint_bounded [of low] by simp_all
  have "push_bit 8 (ucast high :: 16 word) OR ucast low = push_bit 8 (ucast high) + ucast low"
    by (rule disjunctive_add [symmetric]) (auto simp add: bit_simps dest: bit_imp_le_length)
  then have "uint (twoComplement [low, high]) = uint (push_bit 8 (ucast high :: 16 word) + ucast low)"
    by (simp add: twoComplement_def)
  also have "\<dots> = (256 * uint high + uint low) mod 65536"
    by (simp add: uint_word_ariths push_bit_eq_mult uint_up_ucast is_up mod_simps mult.commute)
  also have "\<dots> = 256 * uint high + uint low"
    using b by simp
  finally show ?thesis by simp
qed

lemma sint_16_uint: "sint (w :: 16 word) = (if uint w < 32768 then uint w else uint w - 65536)"
proof -
  have b: "uint w < 65536" "0 \<le> uint w" using uint_bounded [of w] by simp_all
  have hi: "(uint w + 32768) mod 65536 = uint w - 32768" if "\<not> uint w < 32768"
  proof -
    have "uint w + 32768 = uint w - 32768 + 65536" by arith
    then have "(uint w + 32768) mod 65536 = (uint w - 32768 + 65536) mod 65536" by (simp only:)
    also have "\<dots> = (uint w - 32768) mod 65536" by (simp only: mod_add_self2)
    also have "\<dots> = uint w - 32768" using that b by simp
    finally show ?thesis .
  qed
  show ?thesis
    using b hi by (simp add: sint_uint signed_take_bit_eq_take_bit_shift take_bit_eq_mod)
qed

lemma sint_twoComplement: "sint (twoComplement [low, high]) = spec_twoComplement low high"
  by (simp add: sint_16_uint uint_twoComplement spec_twoComplement_def Let_def)

lemma sint_fifo_sample: "sint (fifo_sample s j axis) = spec_fifo_sample s j axis"
proof -
  have i: "a + 1 + 2 * 1 = a + 3" "a + 2 + 2 * 1 = a + 4" "a + 1 + 2 * 2 = a + 5" "a + 2 + 2 * 2 = a + 6"
    for a :: nat
    by simp_all
  show ?thesis
    by (cases axis) (simp_all only: fifo_sample_def spec_fifo_sample_def sint_twoComplement
        axis_index_def axis_e.case i mult_0_right add_0_right)
qed

lemma static_assert_AVG_FIFO:
  "c \<le> 32 \<Longrightarrow> static_assert_AVG c ADXL_AVG_SHIFT = (unat c = 2 ^ ADXL_AVG_SHIFT)"
proof -
  assume le: "c \<le> 32"
  have "static_assert_AVG c ADXL_AVG_SHIFT = (32 \<le> c \<and> c < 64)"
    by (rule static_assert_AVG_iff)
  also have "\<dots> = (c = 32)" using le by auto
  also have "\<dots> = (unat c = 32)" by (simp add: word_unat_eq_iff)
  finally show ?thesis by (simp add: ADXL_AVG_SHIFT_def)
qed

lemma datasheet_X0: "adxl345_datasheet DATA_X0 \<le> adxl345_datasheet ADXL_REGISTER_MAXNB"
  by simp

section \<open>The state functions of the accelerometer\<close>

lemma reserved_range_iff:
  "(reg - 1 < H) = (1 \<le> reg \<and> reg \<le> H)" for reg H :: "8 word"
proof (cases "reg = 0")
  case True
  have "\<not> (255 :: 8 word) < H"
    using unsigned_less [of H, where 'a = nat] by (simp add: word_less_nat_alt)
  with True show ?thesis by (simp add: word_le_nat_alt)
next
  case False
  then have u: "unat (reg - 1) = unat reg - 1" by (rule unat_minus_one)
  from False have p: "0 < unat reg" by (simp add: unat_gt_0)
  show ?thesis
    using p by (simp add: word_less_nat_alt word_le_nat_alt u) linarith
qed

lemma configure_loop_frame:
  "measurementsUpdated (snd (configure_loop K rows s)) = measurementsUpdated s
   \<and> latestValues (snd (configure_loop K rows s)) = latestValues s
   \<and> previousValues (snd (configure_loop K rows s)) = previousValues s
   \<and> zeroValues (snd (configure_loop K rows s)) = zeroValues s
   \<and> INT1_pin (snd (configure_loop K rows s)) = INT1_pin s
   \<and> spi_flag_ms (snd (configure_loop K rows s)) = spi_flag_ms s
   \<and> spi_miso (snd (configure_loop K rows s)) = spi_miso s
   \<and> nb_transactions (spi_log (snd (configure_loop K rows s)))
        \<le> nb_transactions (spi_log s) + length rows
   \<and> state (snd (configure_loop K rows s))
        = (if fst (configure_loop K rows s) = None then state s else Error)"
proof (induction rows arbitrary: s)
  case Nil
  show ?case by simp
next
  case (Cons row rows)
  let ?w = "writeRegister K (fst row) (snd row) s"
  let ?s2 = "(snd ?w)\<lparr>result := fst ?w\<rparr>"
  have c: "nb_transactions (spi_log ?s2) \<le> nb_transactions (spi_log s) + 1"
    by (simp add: writeRegister_count)
  show ?case
  proof (cases "isError (fst ?w)")
    case True
    then show ?thesis using c by (simp add: split_beta Let_def)
  next
    case False
    then have eq: "configure_loop K (row # rows) s = configure_loop K rows ?s2"
      by (simp add: split_beta Let_def)
    show ?thesis unfolding eq using Cons.IH [of ?s2] c by simp
  qed
qed

lemma configure_loop_responsive:
  assumes "\<forall>k. spi_flag_ms s k = 0"
    and "\<forall>row \<in> set rows. fst row \<le> K ADXL_REGISTER_MAXNB \<and> \<not> fst row - 1 < K ADXL_HIGH_RESERVED_REG"
  shows "fst (configure_loop K rows s) = None
     \<and> nb_transactions (spi_log (snd (configure_loop K rows s))) = nb_transactions (spi_log s) + length rows"
  using assms
proof (induction rows arbitrary: s)
  case Nil
  show ?case by simp
next
  case (Cons row rows)
  let ?w = "writeRegister K (fst row) (snd row) s"
  let ?s2 = "(snd ?w)\<lparr>result := fst ?w\<rparr>"
  have ok: "fst ?w = ERR_SUCCESS"
    using writeRegister_responsive [of s "fst row" K "snd row"] Cons.prems by simp
  have eq: "configure_loop K (row # rows) s = configure_loop K rows ?s2"
    using ok by (simp add: split_beta Let_def)
  have c: "nb_transactions (spi_log ?s2) = nb_transactions (spi_log s) + 1"
    using Cons.prems(2) by (simp add: writeRegister_count not_less)
  show ?case unfolding eq using Cons.IH [of ?s2] Cons.prems c by simp
qed

lemma stStartup_count:
  "nb_transactions (spi_log (snd (stStartup K s))) \<le> nb_transactions (spi_log s) + 1"
  by (simp add: stStartup_def Let_def split_beta readRegisters_count)

lemma stConfiguring_count:
  "nb_transactions (spi_log (snd (stConfiguring K s))) \<le> nb_transactions (spi_log s) + NB_REG_INIT"
  using configure_loop_frame [of K "initialisationArray K" s]
  by (cases "fst (configure_loop K (initialisationArray K) s)")
     (simp_all add: stConfiguring_def split_beta initialisationArray_def NB_REG_INIT_def)

lemma stWaitingForSTenabled_count:
  "nb_transactions (spi_log (snd (stWaitingForSTenabled K s))) \<le> nb_transactions (spi_log s) + 1"
  by (simp add: stWaitingForSTenabled_def Let_def split_beta writeRegister_count)

lemma stMeasuring_count:
  "nb_transactions (spi_log (snd (stMeasuring K s)))
     \<le> nb_transactions (spi_log s) + unat (ADXL_AVG_SAMPLES K)"
  using integrateFIFO_frame [of K "s\<lparr>adxlTimer_ms := INT_TIMEOUT_MS\<rparr>"]
  by (simp add: stMeasuring_def Let_def split_beta)

lemma stMeasuringST_ON_count:
  "nb_transactions (spi_log (snd (stMeasuringST_ON K s)))
     \<le> nb_transactions (spi_log s) + unat (ADXL_AVG_SAMPLES K) + 1"
  using integrateFIFO_frame [of K s]
  by (simp add: stMeasuringST_ON_def Let_def split_beta writeRegister_count)

lemma stMeasuringST_OFF_count:
  "nb_transactions (spi_log (snd (stMeasuringST_OFF K s)))
     \<le> nb_transactions (spi_log s) + unat (ADXL_AVG_SAMPLES K) + 2"
  using integrateFIFO_frame [of K s]
  by (simp add: stMeasuringST_OFF_def Let_def split_beta writeRegister_count)

lemma ADXL345update_count:
  "nb_transactions (spi_log (snd (ADXL345update K s)))
     \<le> nb_transactions (spi_log s) + max NB_REG_INIT (unat (ADXL_AVG_SAMPLES K) + 2)"
proof (cases "state s")
  case Startup
  then show ?thesis using stStartup_count [of K s] by (simp add: ADXL345update_def NB_REG_INIT_def)
next
  case Configuring
  then show ?thesis using stConfiguring_count [of K s] by (simp add: ADXL345update_def)
next
  case MeasuringST_OFF
  then show ?thesis using stMeasuringST_OFF_count [of K s] by (simp add: ADXL345update_def)
next
  case WaitingForSTenabled
  then show ?thesis using stWaitingForSTenabled_count [of K s] by (simp add: ADXL345update_def NB_REG_INIT_def)
next
  case MeasuringST_ON
  then show ?thesis using stMeasuringST_ON_count [of K s] by (simp add: ADXL345update_def)
next
  case Measuring
  then show ?thesis using stMeasuring_count [of K s] by (simp add: ADXL345update_def)
next
  case Error
  then show ?thesis by (simp add: ADXL345update_def stError_def)
qed

lemma datasheet_rows:
  "\<forall>row \<in> set (initialisationArray adxl345_datasheet).
      fst row \<le> adxl345_datasheet ADXL_REGISTER_MAXNB
      \<and> \<not> fst row - 1 < adxl345_datasheet ADXL_HIGH_RESERVED_REG"
  by (simp add: initialisationArray_def)

lemma power_up_responsive: "spi_flag_ms adxl_power_up = (\<lambda>k. 0)"
  by (simp add: adxl_power_up_def)

lemma readRegisters_stuck:
  assumes "\<forall>k. SPI_TIMEOUT_MS \<le> spi_flag_ms s k" and "n \<noteq> 0" and "reg \<le> K ADXL_REGISTER_MAXNB"
  shows "fst (readRegisters K reg val n s) = createErrorCode (adxl_id READ_REGISTERS) 2 ERR_WARNING"
proof -
  let ?s1 = "ll LL_SPI_Enable (s\<lparr>adxlSPITimer_ms := SPI_TIMEOUT_MS\<rparr>)"
  let ?s2 = "spin (ll (LL_SPI_TransmitData8 (K ADXL_READ OR K ADXL_MULTIPLE OR reg)) ?s1)"
  let ?s3 = "snd (receiveData8 ?s2)"
  let ?L = "read_loop n 0 (val[0 := fst (receiveData8 ?s2)]) ?s3"
  have "adxlSPITimer_ms ?s3 = 0" using assms(1) by simp
  with read_loop_timer [of n 0 "val[0 := fst (receiveData8 ?s2)]" ?s3]
  have "adxlSPITimer_ms (snd ?L) = 0" by simp
  then show ?thesis
    using assms(2,3) by (simp add: readRegisters_def Let_def split_beta not_less [symmetric])
qed

lemma ST_out_of_range_iff:
  "ST_out_of_range d =
     (\<exists>axis. sint (d axis) \<le> sint (fst (ST_MAXDELTAS axis)) \<or> sint (snd (ST_MAXDELTAS axis)) \<le> sint (d axis))"
proof -
  have ex: "(\<exists>axis. P axis) = (P X_AXIS \<or> P Y_AXIS \<or> P Z_AXIS)" for P
    by (metis axis_e.exhaust)
  show ?thesis
    unfolding ex by (simp add: ST_out_of_range_def word_sle_eq disj_ac)
qed

lemma integrateFIFO_responsive:
  assumes "\<forall>k. spi_flag_ms s k = 0" and "K DATA_X0 \<le> K ADXL_REGISTER_MAXNB"
  shows "fst (integrateFIFO K s) = ERR_SUCCESS"
  using integrate_loop_responsive [OF assms]
  by (simp add: integrateFIFO_def split_beta)

lemma integrateFIFO_zero:
  assumes "\<not> isError (fst (integrateFIFO K s))" and "\<forall>k. spi_miso s k = 0"
  shows "fst (snd (integrateFIFO K s)) axis = 0"
proof -
  have "fifo_sample s j axis = 0" for j
    using assms(2) by (simp add: fifo_sample_def twoComplement_def)
  then have "sint (fst (snd (integrateFIFO K s)) axis) = 0"
    using integrateFIFO_value [OF assms(1), of axis] by simp
  then have "sint (fst (snd (integrateFIFO K s)) axis) = sint (0 :: 32 word)" by simp
  then show ?thesis by (simp only: signed_word_eqI)
qed

lemma stMeasuringST_ON_state:
  assumes "adxlTimer_ms s \<noteq> 0" and "isFIFOdataReady s" and "\<not> isError (fst (integrateFIFO K s))"
  shows "state (snd (stMeasuringST_ON K s)) =
     (if ST_out_of_range (\<lambda>axis. fst (snd (integrateFIFO K s)) axis - latestValues s axis) then Error
      else if isError (fst (writeRegister K (K DATA_FORMAT) (DATA_FORMAT_DEFAULT K)
                             ((snd (snd (integrateFIFO K s)))\<lparr>result := fst (integrateFIFO K s)\<rparr>)))
      then Error else Measuring)"
  using assms integrateFIFO_frame [of K s]
  by (simp add: stMeasuringST_ON_def Let_def split_beta)

lemma self_test_run:
  assumes "s = adxl_power_up\<lparr>state := MeasuringST_ON, latestValues := axes x y z\<rparr>"
  shows "state s = MeasuringST_ON \<and> adxlTimer_ms s \<noteq> 0 \<and> isFIFOdataReady s
     \<and> \<not> isError (fst (integrateFIFO adxl345_datasheet s))
     \<and> fst (snd (integrateFIFO adxl345_datasheet s)) = (\<lambda>axis. 0)
     \<and> latestValues s = axes x y z
     \<and> \<not> isError (fst (writeRegister adxl345_datasheet (adxl345_datasheet DATA_FORMAT)
                          (DATA_FORMAT_DEFAULT adxl345_datasheet)
                          ((snd (snd (integrateFIFO adxl345_datasheet s)))
                             \<lparr>result := fst (integrateFIFO adxl345_datasheet s)\<rparr>)))"
proof -
  let ?K = adxl345_datasheet
  have resp: "\<forall>k. spi_flag_ms s k = 0" and zero: "\<forall>k. spi_miso s k = 0"
    by (simp_all add: assms adxl_power_up_def)
  have ok: "\<not> isError (fst (integrateFIFO ?K s))"
    using integrateFIFO_responsive [OF resp, of ?K] by simp
  have v: "fst (snd (integrateFIFO ?K s)) = (\<lambda>axis. 0)"
    using integrateFIFO_zero [OF ok zero] by (simp add: fun_eq_iff)
  let ?s2 = "(snd (snd (integrateFIFO ?K s)))\<lparr>result := fst (integrateFIFO ?K s)\<rparr>"
  have "\<forall>k. spi_flag_ms ?s2 k = 0"
    using integrateFIFO_frame [of ?K s] resp by simp
  then have w: "fst (writeRegister ?K (?K DATA_FORMAT) (DATA_FORMAT_DEFAULT ?K) ?s2) = ERR_SUCCESS"
    by (intro writeRegister_responsive) simp_all
  show ?thesis
    using ok v w by (simp add: assms adxl_power_up_def isFIFOdataReady_def INT_TIMEOUT_MS_def)
qed

subsection \<open>Time spent in one call\<close>

lemma read_loop_elapsed:
  "elapsed_ms (snd (read_loop n it val s)) + adxlSPITimer_ms (snd (read_loop n it val s))
     = elapsed_ms s + adxlSPITimer_ms s"
  using read_loop_bus_frame [of s n it val] by (simp add: bus_frame_def)

lemma writeRegister_elapsed:
  "elapsed_ms (snd (writeRegister K reg v s)) \<le> elapsed_ms s + SPI_TIMEOUT_MS"
  by (auto simp add: writeRegister_def Let_def min_def)

lemma readRegisters_elapsed:
  "elapsed_ms (snd (snd (readRegisters K reg val n s))) \<le> elapsed_ms s + SPI_TIMEOUT_MS"
proof -
  let ?s1 = "ll LL_SPI_Enable (s\<lparr>adxlSPITimer_ms := SPI_TIMEOUT_MS\<rparr>)"
  let ?s2 = "spin (ll (LL_SPI_TransmitData8 (K ADXL_READ OR K ADXL_MULTIPLE OR reg)) ?s1)"
  let ?s3 = "snd (receiveData8 ?s2)"
  let ?L = "read_loop n 0 (val[0 := fst (receiveData8 ?s2)]) ?s3"
  have a: "elapsed_ms ?s3 + adxlSPITimer_ms ?s3 = elapsed_ms s + SPI_TIMEOUT_MS"
    by (auto simp add: min_def)
  have b: "elapsed_ms (snd ?L) + adxlSPITimer_ms (snd ?L) = elapsed_ms s + SPI_TIMEOUT_MS"
    using read_loop_elapsed [of n 0 "val[0 := fst (receiveData8 ?s2)]" ?s3] a by simp
  show ?thesis
    using b by (auto simp add: readRegisters_def Let_def split_beta min_def)
qed

lemma integrate_loop_elapsed:
  "elapsed_ms (snd (snd (integrate_loop K n buffer vals s))) \<le> elapsed_ms s + SPI_TIMEOUT_MS * n"
proof (induction n arbitrary: buffer vals s)
  case 0
  show ?case by simp
next
  case (Suc n)
  let ?rr = "readRegisters K (K DATA_X0) buffer 6 s"
  note e = readRegisters_elapsed [of K "K DATA_X0" buffer 6 s]
  show ?case
  proof (cases "isError (fst ?rr)")
    case True
    then show ?thesis using e by (simp add: integrate_loop_Suc)
  next
    case False
    let ?b = "fst (snd ?rr)"
    let ?v = "\<lambda>axis. vals axis + scast (twoComplement (drop (push_bit 1 (axis_index axis)) ?b))"
    let ?s2 = "(snd (snd ?rr))\<lparr>result := fst ?rr\<rparr>"
    have eq: "integrate_loop K (Suc n) buffer vals s = integrate_loop K n ?b ?v ?s2"
      using False by (simp add: integrate_loop_Suc)
    show ?thesis
      unfolding eq using Suc.IH [of ?b ?v ?s2] e by simp
  qed
qed

lemma integrateFIFO_elapsed:
  "elapsed_ms (snd (snd (integrateFIFO K s)))
     \<le> elapsed_ms s + SPI_TIMEOUT_MS * unat (ADXL_AVG_SAMPLES K)"
  using integrate_loop_elapsed [of K "unat (ADXL_AVG_SAMPLES K)" "replicate ADXL_NB_DATA_REGISTERS 0" "\<lambda>axis. 0" s]
  by (cases "fst (integrate_loop K (unat (ADXL_AVG_SAMPLES K)) (replicate ADXL_NB_DATA_REGISTERS 0) (\<lambda>axis. 0) s)")
     (simp_all add: integrateFIFO_def split_beta)

lemma configure_loop_elapsed:
  "elapsed_ms (snd (configure_loop K rows s)) \<le> elapsed_ms s + SPI_TIMEOUT_MS * length rows"
proof (induction rows arbitrary: s)
  case Nil
  show ?case by simp
next
  case (Cons row rows)
  let ?w = "writeRegister K (fst row) (snd row) s"
  let ?s2 = "(snd ?w)\<lparr>result := fst ?w\<rparr>"
  note e = writeRegister_elapsed [of K "fst row" "snd row" s]
  show ?case
  proof (cases "isError (fst ?w)")
    case True
    then show ?thesis using e by (simp add: split_beta Let_def)
  next
    case False
    then have eq: "configure_loop K (row # rows) s = configure_loop K rows ?s2"
      by (simp add: split_beta Let_def)
    show ?thesis unfolding eq using Cons.IH [of ?s2] e by simp
  qed
qed

lemma stStartup_elapsed:
  "elapsed_ms (snd (stStartup K s)) \<le> elapsed_ms s + SPI_TIMEOUT_MS"
  using readRegisters_elapsed [of K "K DEVICE_ID" "[0]" 1 s]
  by (simp add: stStartup_def Let_def split_beta)

lemma stConfiguring_elapsed:
  "elapsed_ms (snd (stConfiguring K s)) \<le> elapsed_ms s + SPI_TIMEOUT_MS * NB_REG_INIT"
  using configure_loop_elapsed [of K "initialisationArray K" s]
  by (cases "fst (configure_loop K (initialisationArray K) s)")
     (simp_all add: stConfiguring_def split_beta initialisationArray_def NB_REG_INIT_def)

lemma stWaitingForSTenabled_elapsed:
  "elapsed_ms (snd (stWaitingForSTenabled K s)) \<le> elapsed_ms s + SPI_TIMEOUT_MS"
  using writeRegister_elapsed [of K "K FIFO_CONTROL" "FIFO_CONTROL_DEFAULT K" s]
  by (simp add: stWaitingForSTenabled_def Let_def split_beta)

lemma stMeasuring_elapsed:
  "elapsed_ms (snd (stMeasuring K s)) \<le> elapsed_ms s + SPI_TIMEOUT_MS * unat (ADXL_AVG_SAMPLES K)"
  using integrateFIFO_elapsed [of K "s\<lparr>adxlTimer_ms := INT_TIMEOUT_MS\<rparr>"]
  by (simp add: stMeasuring_def Let_def split_beta)

lemma stMeasuringST_ON_elapsed:
  "elapsed_ms (snd (stMeasuringST_ON K s))
     \<le> elapsed_ms s + SPI_TIMEOUT_MS * (unat (ADXL_AVG_SAMPLES K) + 1)"
proof -
  let ?i = "integrateFIFO K s"
  let ?s2 = "(snd (snd ?i))\<lparr>result := fst ?i\<rparr>"
  note a = integrateFIFO_elapsed [of K s]
  note b = writeRegister_elapsed [of K "K DATA_FORMAT" "DATA_FORMAT_DEFAULT K" ?s2]
  show ?thesis
    using a b by (simp add: stMeasuringST_ON_def Let_def split_beta)
qed

lemma stMeasuringST_OFF_elapsed:
  "elapsed_ms (snd (stMeasuringST_OFF K s))
     \<le> elapsed_ms s + SPI_TIMEOUT_MS * (unat (ADXL_AVG_SAMPLES K) + 2)"
proof -
  let ?i = "integrateFIFO K s"
  let ?s2 = "(snd (snd ?i))\<lparr>latestValues := fst (snd ?i), result := fst ?i\<rparr>"
  let ?w1 = "writeRegister K (K DATA_FORMAT) (DATA_FORMAT_DEFAULT K OR K ADXL_SELF_TEST) ?s2"
  let ?s4 = "(snd ?w1)\<lparr>result := fst ?w1\<rparr>"
  note a = integrateFIFO_elapsed [of K s]
  note b = writeRegister_elapsed [of K "K DATA_FORMAT" "DATA_FORMAT_DEFAULT K OR K ADXL_SELF_TEST" ?s2]
  note c = writeRegister_elapsed [of K "K FIFO_CONTROL" "K ADXL_MODE_BYPASS" ?s4]
  show ?thesis
    using a b c by (simp add: stMeasuringST_OFF_def Let_def split_beta)
qed

lemma elapsed_le_max:
  assumes "x \<le> e + T * k" and "k \<le> m"
  shows "x \<le> e + T * (m :: nat)"
proof -
  from assms(2) have "T * k \<le> T * m" by (rule mult_le_mono2)
  with assms(1) show ?thesis by linarith
qed

lemma ADXL345update_elapsed:
  "elapsed_ms (snd (ADXL345update K s))
     \<le> elapsed_ms s + SPI_TIMEOUT_MS * max NB_REG_INIT (unat (ADXL_AVG_SAMPLES K) + 2)"
proof -
  let ?m = "max NB_REG_INIT (unat (ADXL_AVG_SAMPLES K) + 2)"
  have m: "1 \<le> ?m" "NB_REG_INIT \<le> ?m" "unat (ADXL_AVG_SAMPLES K) \<le> ?m"
    "unat (ADXL_AVG_SAMPLES K) + 1 \<le> ?m" "unat (ADXL_AVG_SAMPLES K) + 2 \<le> ?m" "0 \<le> ?m"
    by (simp_all add: NB_REG_INIT_def)
  show ?thesis
  proof (cases "state s")
    case Startup
    then have upd: "ADXL345update K s = stStartup K s" by (simp add: ADXL345update_def)
    have "elapsed_ms (snd (stStartup K s)) \<le> elapsed_ms s + SPI_TIMEOUT_MS * 1"
      using stStartup_elapsed [of K s] by simp
    then show ?thesis unfolding upd using m(1) by (rule elapsed_le_max)
  next
    case Configuring
    then have upd: "ADXL345update K s = stConfiguring K s" by (simp add: ADXL345update_def)
    show ?thesis unfolding upd using stConfiguring_elapsed m(2) by (rule elapsed_le_max)
  next
    case MeasuringST_OFF
    then have upd: "ADXL345update K s = stMeasuringST_OFF K s" by (simp add: ADXL345update_def)
    show ?thesis unfolding upd using stMeasuringST_OFF_elapsed m(5) by (rule elapsed_le_max)
  next
    case WaitingForSTenabled
    then have upd: "ADXL345update K s = stWaitingForSTenabled K s" by (simp add: ADXL345update_def)
    have "elapsed_ms (snd (stWaitingForSTenabled K s)) \<le> elapsed_ms s + SPI_TIMEOUT_MS * 1"
      using stWaitingForSTenabled_elapsed [of K s] by simp
    then show ?thesis unfolding upd using m(1) by (rule elapsed_le_max)
  next
    case MeasuringST_ON
    then have upd: "ADXL345update K s = stMeasuringST_ON K s" by (simp add: ADXL345update_def)
    show ?thesis unfolding upd using stMeasuringST_ON_elapsed m(4) by (rule elapsed_le_max)
  next
    case Measuring
    then have upd: "ADXL345update K s = stMeasuring K s" by (simp add: ADXL345update_def)
    show ?thesis unfolding upd using stMeasuring_elapsed m(3) by (rule elapsed_le_max)
  next
    case Error
    then show ?thesis by (simp add: ADXL345update_def stError_def)
  qed
qed

section \<open>The commands and state functions of the display\<close>

lemma ll_ssd_simps [simp]:
  "screenTimer_ms (ll_ssd c s) = screenTimer_ms s"
  "ssd1306SPITimer_ms (ll_ssd c s) = ssd1306SPITimer_ms s"
  "state_ssd (ll_ssd c s) = state_ssd s"
  "screenBuffer (ll_ssd c s) = screenBuffer s"
  "limitColumns (ll_ssd c s) = limitColumns s"
  "limitPages (ll_ssd c s) = limitPages s"
  "size_ssd (ll_ssd c s) = size_ssd s"
  "DMA_TE5 (ll_ssd c s) = DMA_TE5 s"
  "DMA_TC5 (ll_ssd c s) = DMA_TC5 s"
  "ssd_flag_ms (ll_ssd c s) = ssd_flag_ms s"
  "ssd_waits (ll_ssd c s) = ssd_waits s"
  "ssd_log (ll_ssd c s) = c # ssd_log s"
  "elapsed_ms_ssd (ll_ssd c s) = elapsed_ms_ssd s"
  by (simp_all add: ll_ssd_def)

lemma spin_ssd_simps [simp]:
  "screenTimer_ms (spin_ssd s) = screenTimer_ms s - min (ssd_flag_ms s (ssd_waits s)) (ssd1306SPITimer_ms s)"
  "ssd1306SPITimer_ms (spin_ssd s) = ssd1306SPITimer_ms s - ssd_flag_ms s (ssd_waits s)"
  "state_ssd (spin_ssd s) = state_ssd s"
  "screenBuffer (spin_ssd s) = screenBuffer s"
  "limitColumns (spin_ssd s) = limitColumns s"
  "limitPages (spin_ssd s) = limitPages s"
  "size_ssd (spin_ssd s) = size_ssd s"
  "DMA_TE5 (spin_ssd s) = DMA_TE5 s"
  "DMA_TC5 (spin_ssd s) = DMA_TC5 s"
  "ssd_flag_ms (spin_ssd s) = ssd_flag_ms s"
  "ssd_waits (spin_ssd s) = Suc (ssd_waits s)"
  "ssd_log (spin_ssd s) = ssd_log s"
  "elapsed_ms_ssd (spin_ssd s) = elapsed_ms_ssd s + min (ssd_flag_ms s (ssd_waits s)) (ssd1306SPITimer_ms s)"
  by (simp_all add: spin_ssd_def tick_ssd_def)

lemma setDataCommandGPIO_simps [simp]:
  "screenTimer_ms (setDataCommandGPIO f s) = screenTimer_ms s"
  "ssd1306SPITimer_ms (setDataCommandGPIO f s) = ssd1306SPITimer_ms s"
  "state_ssd (setDataCommandGPIO f s) = state_ssd s"
  "screenBuffer (setDataCommandGPIO f s) = screenBuffer s"
  "limitColumns (setDataCommandGPIO f s) = limitColumns s"
  "limitPages (setDataCommandGPIO f s) = limitPages s"
  "size_ssd (setDataCommandGPIO f s) = size_ssd s"
  "DMA_TE5 (setDataCommandGPIO f s) = DMA_TE5 s"
  "DMA_TC5 (setDataCommandGPIO f s) = DMA_TC5 s"
  "ssd_flag_ms (setDataCommandGPIO f s) = ssd_flag_ms s"
  "ssd_waits (setDataCommandGPIO f s) = ssd_waits s"
  "nb_transactions (ssd_log (setDataCommandGPIO f s)) = nb_transactions (ssd_log s)"
  "elapsed_ms_ssd (setDataCommandGPIO f s) = elapsed_ms_ssd s"
  by (simp_all add: setDataCommandGPIO_def)

lemma parameters_loop_frame [simp]:
  "state_ssd (parameters_loop ps s) = state_ssd s"
  "screenBuffer (parameters_loop ps s) = screenBuffer s"
  "limitColumns (parameters_loop ps s) = limitColumns s"
  "limitPages (parameters_loop ps s) = limitPages s"
  "size_ssd (parameters_loop ps s) = size_ssd s"
  "DMA_TE5 (parameters_loop ps s) = DMA_TE5 s"
  "DMA_TC5 (parameters_loop ps s) = DMA_TC5 s"
  "ssd_flag_ms (parameters_loop ps s) = ssd_flag_ms s"
  "nb_transactions (ssd_log (parameters_loop ps s)) = nb_transactions (ssd_log s)"
  by (induction ps arbitrary: s; simp add: Let_def)+

lemma parameters_loop_responsive:
  "\<forall>k. ssd_flag_ms s k = 0 \<Longrightarrow> ssd1306SPITimer_ms (parameters_loop ps s) = ssd1306SPITimer_ms s"
  by (induction ps arbitrary: s) (simp_all add: Let_def)

lemma sendCommand_frame [simp]:
  "state_ssd (snd (sendCommand reg ps n s)) = state_ssd s"
  "screenBuffer (snd (sendCommand reg ps n s)) = screenBuffer s"
  "limitColumns (snd (sendCommand reg ps n s)) = limitColumns s"
  "limitPages (snd (sendCommand reg ps n s)) = limitPages s"
  "size_ssd (snd (sendCommand reg ps n s)) = size_ssd s"
  "DMA_TE5 (snd (sendCommand reg ps n s)) = DMA_TE5 s"
  "DMA_TC5 (snd (sendCommand reg ps n s)) = DMA_TC5 s"
  "ssd_flag_ms (snd (sendCommand reg ps n s)) = ssd_flag_ms s"
  by (simp_all add: sendCommand_def Let_def)

lemma sendCommand_count:
  "nb_transactions (ssd_log (snd (sendCommand reg ps n s)))
     = nb_transactions (ssd_log s) + (if n > MAX_PARAMETERS then 0 else 1)"
  by (simp add: sendCommand_def Let_def)

lemma sendCommand_responsive:
  "\<forall>k. ssd_flag_ms s k = 0 \<Longrightarrow> n \<le> MAX_PARAMETERS \<Longrightarrow> fst (sendCommand reg ps n s) = ERR_SUCCESS"
  by (simp add: sendCommand_def Let_def parameters_loop_responsive SPI_TIMEOUT_MS_def not_less [symmetric])

lemma init_loop_count:
  "nb_transactions (ssd_log (snd (init_loop rows s))) \<le> nb_transactions (ssd_log s) + length rows"
proof (induction rows arbitrary: s)
  case Nil
  show ?case by simp
next
  case (Cons row rows)
  let ?c = "sendCommand (fst row) [snd (snd row)] (fst (snd row)) s"
  have c: "nb_transactions (ssd_log (snd ?c)) \<le> nb_transactions (ssd_log s) + 1"
    by (simp add: sendCommand_count)
  show ?case
  proof (cases "isError (fst ?c)")
    case True
    then show ?thesis using c by (simp add: split_beta)
  next
    case False
    then have eq: "init_loop (row # rows) s = init_loop rows (snd ?c)"
      by (simp add: split_beta)
    show ?thesis unfolding eq using Cons.IH [of "snd ?c"] c by simp
  qed
qed

lemma drawBaseScreen_log [simp]:
  "ssd_log (snd (SSD1306drawBaseScreen B s)) = ssd_log s"
  by (simp add: SSD1306drawBaseScreen_def Let_def)

lemma stConfiguring_ssd_count:
  "nb_transactions (ssd_log (snd (stConfiguring_ssd R B s))) \<le> nb_transactions (ssd_log s) + 8"
proof -
  let ?s0 = "ll_ssd (LL_GPIO_SetOutputPin SSD1306_RES_Pin) (ll_ssd (LL_GPIO_ResetOutputPin SSD1306_RES_Pin) s)"
  have "nb_transactions (ssd_log (snd (init_loop (initCommands R) ?s0))) \<le> nb_transactions (ssd_log ?s0) + 8"
    using init_loop_count [of "initCommands R" ?s0] by (simp add: initCommands_def)
  then show ?thesis
    by (cases "fst (init_loop (initCommands R) ?s0)")
       (simp_all add: stConfiguring_ssd_def Let_def split_beta)
qed

lemma stSendingData_count:
  "nb_transactions (ssd_log (snd (stSendingData R s))) \<le> nb_transactions (ssd_log s) + 3"
  by (simp add: stSendingData_def Let_def split_beta sendCommand_count)

lemma stWaitingForTXdone_count:
  "nb_transactions (ssd_log (snd (stWaitingForTXdone s))) = nb_transactions (ssd_log s)"
  by (simp add: stWaitingForTXdone_def finalise_def)

lemma SSD1306update_count:
  "nb_transactions (ssd_log (snd (SSD1306update R B s))) \<le> nb_transactions (ssd_log s) + 8"
proof (cases "state_ssd s")
  case Idle
  then show ?thesis by (simp add: SSD1306update_def stIdle_def)
next
  case Configuring_ssd
  then show ?thesis using stConfiguring_ssd_count [of R B s] by (simp add: SSD1306update_def)
next
  case SendingData
  then show ?thesis using stSendingData_count [of R s] by (simp add: SSD1306update_def)
next
  case WaitingForTXdone
  then show ?thesis using stWaitingForTXdone_count [of s] by (simp add: SSD1306update_def)
qed

lemma parameters_loop_timer:
  "ssd1306SPITimer_ms (parameters_loop ps s) \<le> ssd1306SPITimer_ms s"
proof (induction ps arbitrary: s)
  case Nil
  show ?case by simp
next
  case (Cons p ps)
  let ?s1 = "spin_ssd s"
  let ?s2 = "if ssd1306SPITimer_ms ?s1 \<noteq> 0 then ll_ssd (LL_SPI_TransmitData8 p) ?s1 else ?s1"
  have "ssd1306SPITimer_ms (parameters_loop ps ?s2) \<le> ssd1306SPITimer_ms ?s2" by (rule Cons.IH)
  also have "\<dots> \<le> ssd1306SPITimer_ms s" by simp
  finally have "ssd1306SPITimer_ms (parameters_loop ps ?s2) \<le> ssd1306SPITimer_ms s" .
  then show ?case by (auto simp add: Let_def split: if_splits)
qed

lemma sendCommand_stuck:
  assumes "\<forall>k. SPI_TIMEOUT_MS \<le> ssd_flag_ms s k" and "n \<le> MAX_PARAMETERS"
  shows "fst (sendCommand reg ps n s) = createErrorCode (ssd_id SEND_CMD) 2 ERR_WARNING"
proof -
  let ?s1 = "ll_ssd LL_SPI_Enable (setDataCommandGPIO COMMAND (s\<lparr>ssd1306SPITimer_ms := SPI_TIMEOUT_MS\<rparr>))"
  let ?s2 = "ll_ssd (LL_SPI_TransmitData8 reg) ?s1"
  let ?s3 = "parameters_loop (take n ps) ?s2"
  have "ssd1306SPITimer_ms ?s3 \<le> SPI_TIMEOUT_MS"
    using parameters_loop_timer [of "take n ps" ?s2] by simp
  moreover have "SPI_TIMEOUT_MS \<le> ssd_flag_ms ?s3 (ssd_waits ?s3)"
    using assms(1) by simp
  ultimately have "ssd1306SPITimer_ms (spin_ssd ?s3) = 0" by simp
  then show ?thesis
    using assms(2) by (simp add: sendCommand_def Let_def not_less [symmetric])
qed

lemma stSendingData_state:
  "state_ssd (snd (stSendingData R s)) =
     (if isError (fst (sendCommand (R COLUMN_ADDRESS) (limitColumns s) 2 s))
         \<or> isError (fst (sendCommand (R PAGE_ADDRESS) (limitPages s) 2
                            (snd (sendCommand (R COLUMN_ADDRESS) (limitColumns s) 2 s))))
      then Idle else WaitingForTXdone)"
  by (simp add: stSendingData_def Let_def split_beta)

lemma prepare_state [simp]:
  "state_ssd (snd (SSD1306drawBaseScreen B s)) = SendingData"
  "state_ssd (snd (SSD1306_printAngleTenths B a ax s)) = SendingData"
  "state_ssd (snd (SSD1306_printReferentialIcon B ty s)) = SendingData"
  "state_ssd (snd (SSD1306_printHoldIcon B st s)) = SendingData"
  by (simp_all add: SSD1306drawBaseScreen_def SSD1306_printAngleTenths_def
      SSD1306_printReferentialIcon_def SSD1306_printHoldIcon_def Let_def)

lemma first_command_ok:
  "fst (sendCommand c [0, 0] 2 (ssd_power_up\<lparr>state_ssd := SendingData, ssd_flag_ms := second_command_hangs\<rparr>)) = ERR_SUCCESS
  \<and> ssd_waits (snd (sendCommand c [0, 0] 2 (ssd_power_up\<lparr>state_ssd := SendingData, ssd_flag_ms := second_command_hangs\<rparr>))) = 3"
  by (simp add: sendCommand_def Let_def ssd_power_up_def second_command_hangs_def SPI_TIMEOUT_MS_def MAX_PARAMETERS_def)

lemma second_command_fails:
  "isError (fst (sendCommand c' [0, 0] 2 (snd (sendCommand c [0, 0] 2 (ssd_power_up\<lparr>state_ssd := SendingData, ssd_flag_ms := second_command_hangs\<rparr>)))))"
  using first_command_ok [of c]
  by (simp add: sendCommand_def [of c'] Let_def second_command_hangs_def SPI_TIMEOUT_MS_def MAX_PARAMETERS_def)

subsection \<open>Time spent in one call of the display\<close>

lemma parameters_loop_elapsed:
  "elapsed_ms_ssd (parameters_loop ps s) + ssd1306SPITimer_ms (parameters_loop ps s)
     = elapsed_ms_ssd s + ssd1306SPITimer_ms s"
proof (induction ps arbitrary: s)
  case Nil
  show ?case by simp
next
  case (Cons p ps)
  let ?s1 = "spin_ssd s"
  let ?s2 = "if ssd1306SPITimer_ms ?s1 \<noteq> 0 then ll_ssd (LL_SPI_TransmitData8 p) ?s1 else ?s1"
  have a: "elapsed_ms_ssd ?s2 + ssd1306SPITimer_ms ?s2 = elapsed_ms_ssd s + ssd1306SPITimer_ms s"
    by (auto simp add: min_def)
  have "elapsed_ms_ssd (parameters_loop ps ?s2) + ssd1306SPITimer_ms (parameters_loop ps ?s2)
          = elapsed_ms_ssd s + ssd1306SPITimer_ms s"
    using Cons.IH [of ?s2] a by simp
  then show ?case by (auto simp add: Let_def split: if_splits)
qed

lemma sendCommand_elapsed:
  "elapsed_ms_ssd (snd (sendCommand reg ps n s)) \<le> elapsed_ms_ssd s + SPI_TIMEOUT_MS"
proof -
  let ?s1 = "ll_ssd LL_SPI_Enable (setDataCommandGPIO COMMAND (s\<lparr>ssd1306SPITimer_ms := SPI_TIMEOUT_MS\<rparr>))"
  let ?s2 = "ll_ssd (LL_SPI_TransmitData8 reg) ?s1"
  let ?s3 = "parameters_loop (take n ps) ?s2"
  have b: "elapsed_ms_ssd ?s3 + ssd1306SPITimer_ms ?s3 = elapsed_ms_ssd s + SPI_TIMEOUT_MS"
    using parameters_loop_elapsed [of "take n ps" ?s2] by simp
  show ?thesis
    using b by (auto simp add: sendCommand_def Let_def min_def)
qed

lemma init_loop_elapsed:
  "elapsed_ms_ssd (snd (init_loop rows s)) \<le> elapsed_ms_ssd s + SPI_TIMEOUT_MS * length rows"
proof (induction rows arbitrary: s)
  case Nil
  show ?case by simp
next
  case (Cons row rows)
  let ?c = "sendCommand (fst row) [snd (snd row)] (fst (snd row)) s"
  note e = sendCommand_elapsed [of "fst row" "[snd (snd row)]" "fst (snd row)" s]
  show ?case
  proof (cases "isError (fst ?c)")
    case True
    then show ?thesis using e by (simp add: split_beta)
  next
    case False
    then have eq: "init_loop (row # rows) s = init_loop rows (snd ?c)"
      by (simp add: split_beta)
    show ?thesis unfolding eq using Cons.IH [of "snd ?c"] e by simp
  qed
qed

lemma drawBaseScreen_elapsed [simp]:
  "elapsed_ms_ssd (snd (SSD1306drawBaseScreen B s)) = elapsed_ms_ssd s"
  by (simp add: SSD1306drawBaseScreen_def Let_def)

lemma stConfiguring_ssd_elapsed:
  "elapsed_ms_ssd (snd (stConfiguring_ssd R B s)) \<le> elapsed_ms_ssd s + SPI_TIMEOUT_MS * 8"
proof -
  let ?s0 = "ll_ssd (LL_GPIO_SetOutputPin SSD1306_RES_Pin) (ll_ssd (LL_GPIO_ResetOutputPin SSD1306_RES_Pin) s)"
  have "elapsed_ms_ssd (snd (init_loop (initCommands R) ?s0)) \<le> elapsed_ms_ssd ?s0 + SPI_TIMEOUT_MS * 8"
    using init_loop_elapsed [of "initCommands R" ?s0] by (simp add: initCommands_def)
  then show ?thesis
    by (cases "fst (init_loop (initCommands R) ?s0)")
       (simp_all add: stConfiguring_ssd_def Let_def split_beta)
qed

lemma stSendingData_elapsed:
  "elapsed_ms_ssd (snd (stSendingData R s)) \<le> elapsed_ms_ssd s + SPI_TIMEOUT_MS * 8"
proof -
  let ?c1 = "sendCommand (R COLUMN_ADDRESS) (limitColumns s) 2 s"
  note a = sendCommand_elapsed [of "R COLUMN_ADDRESS" "limitColumns s" 2 s]
  note b = sendCommand_elapsed [of "R PAGE_ADDRESS" "limitPages s" 2 "snd ?c1"]
  show ?thesis
    using a b by (simp add: stSendingData_def Let_def split_beta)
qed

lemma SSD1306update_elapsed:
  "elapsed_ms_ssd (snd (SSD1306update R B s)) \<le> elapsed_ms_ssd s + SPI_TIMEOUT_MS * 8"
proof (cases "state_ssd s")
  case Idle
  then show ?thesis by (simp add: SSD1306update_def stIdle_def)
next
  case Configuring_ssd
  then show ?thesis using stConfiguring_ssd_elapsed [of R B s] by (simp add: SSD1306update_def)
next
  case SendingData
  then show ?thesis using stSendingData_elapsed [of R s] by (simp add: SSD1306update_def)
next
  case WaitingForTXdone
  then show ?thesis by (simp add: SSD1306update_def stWaitingForTXdone_def finalise_def)
qed

section \<open>The staged window of the display\<close>

lemma uint_ucast_8_16: "uint (ucast (x :: 8 word) :: 16 word) = uint x"
  by (simp add: uint_up_ucast is_up)

lemma uint_8_bounds: "0 \<le> uint (x :: 8 word) \<and> uint x < 256"
  using uint_lt2p [of x] by simp

lemma mod_256_cases:
  assumes "- 256 \<le> (x::int)" "x < 256"
  shows "x mod 256 = (if x < 0 then x + 256 else x)"
proof (cases "x < 0")
  case True
  have "x mod 256 = (x + 256) mod 256" by simp
  also have "\<dots> = x + 256" using True assms by (intro mod_pos_pos_trivial) simp_all
  finally show ?thesis using True by simp
next
  case False
  then show ?thesis using assms by simp
qed

lemma printReferentialIcon_window:
  "window_bytes (snd (SSD1306_printReferentialIcon B type s))
     \<noteq> uint (size_ssd (snd (SSD1306_printReferentialIcon B type s)))"
proof -
  define n where "n = uint (REFERENCETYPE_NB_BYTES B)"
  have n: "0 \<le> n" "n < 256" using uint_8_bounds [of "REFERENCETYPE_NB_BYTES B"] by (simp_all add: n_def)
  have c0: "uint (REFTYPE_COLUMN B) = (127 - n) mod 256"
    by (simp add: REFTYPE_COLUMN_def SSD_LAST_COLUMN_def uint_word_ariths n_def)
  have c1: "uint (REFTYPE_COLUMN B + REFERENCETYPE_NB_BYTES B) = 127"
    by (simp add: REFTYPE_COLUMN_def SSD_LAST_COLUMN_def)
  have "(127 - (127 - n) mod 256 + 1) * 1 \<noteq> n" using n by (simp add: mod_256_cases)
  then show ?thesis
    by (simp add: SSD1306_printReferentialIcon_def window_bytes_def Let_def c0 c1 uint_ucast_8_16 n_def)
qed

lemma printHoldIcon_window:
  "window_bytes (snd (SSD1306_printHoldIcon B status s))
     \<noteq> uint (size_ssd (snd (SSD1306_printHoldIcon B status s)))"
proof -
  define n where "n = uint (REFERENCETYPE_NB_BYTES B)"
  have n: "0 \<le> n" "n < 256" using uint_8_bounds [of "REFERENCETYPE_NB_BYTES B"] by (simp_all add: n_def)
  have c1: "uint (REFTYPE_COLUMN B) = (127 - n) mod 256"
    by (simp add: REFTYPE_COLUMN_def SSD_LAST_COLUMN_def uint_word_ariths n_def)
  have c0: "uint (REFTYPE_COLUMN B - REFERENCETYPE_NB_BYTES B) = ((127 - n) mod 256 - n) mod 256"
    unfolding uint_word_ariths c1 by (simp add: n_def)
  have "((127 - n) mod 256 - ((127 - n) mod 256 - n) mod 256 + 1) * 1 \<noteq> n" using n by (simp add: mod_256_cases)
  then show ?thesis
    by (simp add: SSD1306_printHoldIcon_def window_bytes_def Let_def c0 c1 uint_ucast_8_16 n_def)
qed

section \<open>The claims\<close>

text \<open>
  Claim C10. For every axis, when \<open>ADXL345hasChanged\<close> is called twice in a row, with
  nothing touching the latest samples in between, the second call returns 0: the first
  call has copied the latest sample of that axis into the last-queried baseline, and it
  leaves the latest samples as they were.
\<close>

theorem ADXL345hasChanged_twice:
  "fst (ADXL345hasChanged axis (snd (ADXL345hasChanged axis s))) = 0
   \<and> previousValues (snd (ADXL345hasChanged axis s)) axis = latestValues s axis
   \<and> latestValues (snd (ADXL345hasChanged axis s)) = latestValues s"
  by (simp add: ADXL345hasChanged_def Let_def)

text \<open>
  Claim C9. When the stored Z sample is exactly zero, \<open>getAngleDegreesTenths\<close>
  returns 0 for every requested axis, whatever the X and Y samples and the zero offsets
  are, and whatever the floating-point computation would give: the quotient by Z is
  never formed.
\<close>

theorem getAngleDegreesTenths_Z_zero:
  "latestValues s Z_AXIS = 0 \<Longrightarrow> getAngleDegreesTenths atan_tenths axis s = 0"
  by (simp add: getAngleDegreesTenths_def)

theorem getAngleDegreesTenths_Z_zero_witness:
  "latestValues (adxl_power_up\<lparr>latestValues := (\<lambda>axis. if axis = Z_AXIS then 0 else 100),
                              zeroValues := (\<lambda>axis. 7)\<rparr>) Z_AXIS = 0
   \<and> getAngleDegreesTenths (\<lambda>num den. 450) X_AXIS
        (adxl_power_up\<lparr>latestValues := (\<lambda>axis. if axis = Z_AXIS then 0 else 100),
                       zeroValues := (\<lambda>axis. 7)\<rparr>) = 0"
  using getAngleDegreesTenths_Z_zero
    [of "adxl_power_up\<lparr>latestValues := (\<lambda>axis. if axis = Z_AXIS then 0 else 100),
                        zeroValues := (\<lambda>axis. 7)\<rparr>" "\<lambda>num den. 450" X_AXIS]
  by simp

text \<open>
  Claim C5. After a buffer-preparation call the staged sub-rectangle and the staged byte
  count should agree. The code breaks this on three of the four calls: drawing the base
  screen stages 128 columns by 32 pages, 4096 bytes, for a count of 1024; the
  referential icon and the hold icon stage one column more than the bytes they count,
  whatever the size of the icon is.
\<close>

theorem staged_window_disagrees:
  "window_bytes (snd (SSD1306drawBaseScreen B s)) = 4096
   \<and> uint (size_ssd (snd (SSD1306drawBaseScreen B s))) = 1024
   \<and> window_bytes (snd (SSD1306_printReferentialIcon B type s))
        \<noteq> uint (size_ssd (snd (SSD1306_printReferentialIcon B type s)))
   \<and> window_bytes (snd (SSD1306_printHoldIcon B status s))
        \<noteq> uint (size_ssd (snd (SSD1306_printHoldIcon B status s)))"
proof -
  have "window_bytes (snd (SSD1306drawBaseScreen B s)) = 4096
      \<and> uint (size_ssd (snd (SSD1306drawBaseScreen B s))) = 1024"
    by (simp add: SSD1306drawBaseScreen_def window_bytes_def Let_def SSD_LAST_COLUMN_def
        SSD_LAST_PAGE_def MAX_DATA_SIZE_def)
  then show ?thesis
    using printReferentialIcon_window [of B type s] printHoldIcon_window [of B status s]
    by simp
qed

text \<open>
  Claim C8. When FIFO integration succeeds with the 32 configured samples, the value of
  each axis is the 32-bit sum of the 32 samples of that axis, shifted right by 5, and
  that is exactly the sum divided by 32 rounded towards minus infinity (\<open>div\<close> on
  \<open>int\<close>), negative sums included. The samples are the little-endian two's-complement
  numbers that the spec reads in the bytes the device shifts out. The build-time
  assertion holds for the 32 configured samples, which are 2 to the power of the shift;
  and among the counts that the FIFO of the device can hold, 32 at most, the assertion
  accepts a count exactly when it is 2 to the power of the shift (the shift test alone
  would let 33 to 63 through, counts the FIFO never holds).
\<close>

theorem integrateFIFO_floor_mean:
  assumes run: "integrateFIFO K s = (r, vals, s')" and ok: "\<not> isError r"
    and samples: "ADXL_AVG_SAMPLES K = 32"
  shows "vals axis = signed_drop_bit ADXL_AVG_SHIFT (of_int (\<Sum>j<32. spec_fifo_sample s j axis))
     \<and> sint (vals axis) = (\<Sum>j<32. spec_fifo_sample s j axis) div 32
     \<and> static_assert_AVG (ADXL_AVG_SAMPLES K) ADXL_AVG_SHIFT
     \<and> unat (ADXL_AVG_SAMPLES K) = 2 ^ ADXL_AVG_SHIFT
     \<and> (c \<le> 32 \<longrightarrow> static_assert_AVG c ADXL_AVG_SHIFT = (unat c = 2 ^ ADXL_AVG_SHIFT))"
proof -
  have ok': "\<not> isError (fst (integrateFIFO K s))" using run ok by simp
  have "vals axis = signed_drop_bit ADXL_AVG_SHIFT (of_int (\<Sum>j<32. spec_fifo_sample s j axis))"
    using integrateFIFO_shift [OF ok', of axis] run samples by (simp add: sint_fifo_sample)
  moreover have "sint (vals axis) = (\<Sum>j<32. spec_fifo_sample s j axis) div 32"
    using integrateFIFO_value [OF ok', of axis] run samples
    by (simp add: ADXL_AVG_SHIFT_def sint_fifo_sample)
  moreover have "static_assert_AVG (ADXL_AVG_SAMPLES K) ADXL_AVG_SHIFT"
    by (simp add: static_assert_AVG_iff samples)
  moreover have "unat (ADXL_AVG_SAMPLES K) = 2 ^ ADXL_AVG_SHIFT"
    by (simp add: samples ADXL_AVG_SHIFT_def)
  ultimately show ?thesis using static_assert_AVG_FIFO [of c] by blast
qed

theorem integrateFIFO_floor_mean_witness:
  "\<not> isError (fst (integrateFIFO adxl345_datasheet (adxl_power_up\<lparr>spi_miso := first_sample_then_zero\<rparr>)))
   \<and> ADXL_AVG_SAMPLES adxl345_datasheet = 32
   \<and> (\<Sum>j<32. spec_fifo_sample (adxl_power_up\<lparr>spi_miso := first_sample_then_zero\<rparr>) j X_AXIS) = - 2
   \<and> (\<Sum>j<32. spec_fifo_sample (adxl_power_up\<lparr>spi_miso := first_sample_then_zero\<rparr>) j Z_AXIS) = 256
   \<and> sint (fst (snd (integrateFIFO adxl345_datasheet (adxl_power_up\<lparr>spi_miso := first_sample_then_zero\<rparr>))) X_AXIS) = - 1
   \<and> sint (fst (snd (integrateFIFO adxl345_datasheet (adxl_power_up\<lparr>spi_miso := first_sample_then_zero\<rparr>))) Z_AXIS) = 8
   \<and> (16 :: 8 word) \<le> 32 \<and> \<not> static_assert_AVG 16 ADXL_AVG_SHIFT
   \<and> (32 :: 8 word) \<le> 32 \<and> static_assert_AVG 32 ADXL_AVG_SHIFT"
proof -
  let ?s = "adxl_power_up\<lparr>spi_miso := first_sample_then_zero\<rparr>"
  let ?r = "integrateFIFO adxl345_datasheet ?s"
  have resp: "\<forall>k. spi_flag_ms ?s k = 0" by (simp add: adxl_power_up_def)
  have ok: "\<not> isError (fst ?r)"
    using integrateFIFO_responsive [OF resp datasheet_X0] by simp
  have n: "ADXL_AVG_SAMPLES adxl345_datasheet = 32" by (simp add: ADXL_AVG_SAMPLES_def)
  have q: "?r = (fst ?r, fst (snd ?r), snd (snd ?r))" by simp
  have x: "spec_fifo_sample ?s j X_AXIS = (if j = 0 then - 2 else 0)" for j
    by (cases j) (simp_all add: spec_fifo_sample_def spec_twoComplement_def adxl_power_up_def
        first_sample_then_zero_def)
  have z: "spec_fifo_sample ?s j Z_AXIS = (if j = 0 then 256 else 0)" for j
    by (cases j) (simp_all add: spec_fifo_sample_def spec_twoComplement_def adxl_power_up_def
        first_sample_then_zero_def)
  have sx: "(\<Sum>j<32. spec_fifo_sample ?s j X_AXIS) = - 2" by (simp add: x)
  have sz: "(\<Sum>j<32. spec_fifo_sample ?s j Z_AXIS) = 256" by (simp add: z)
  note X = integrateFIFO_floor_mean [OF q ok n, of X_AXIS 16]
  note Z = integrateFIFO_floor_mean [OF q ok n, of Z_AXIS 32]
  have vx: "sint (fst (snd ?r) X_AXIS) = - 1"
    using X [THEN conjunct2, THEN conjunct1] unfolding sx by simp
  have vz: "sint (fst (snd ?r) Z_AXIS) = 8"
    using Z [THEN conjunct2, THEN conjunct1] unfolding sz by simp
  have a16: "\<not> static_assert_AVG 16 ADXL_AVG_SHIFT"
    using X [THEN conjunct2, THEN conjunct2, THEN conjunct2, THEN conjunct2]
    by (simp add: ADXL_AVG_SHIFT_def)
  have a32: "static_assert_AVG 32 ADXL_AVG_SHIFT"
    using Z [THEN conjunct2, THEN conjunct2, THEN conjunct2, THEN conjunct2]
    by (simp add: ADXL_AVG_SHIFT_def)
  show ?thesis
    using ok n sx sz vx vz a16 a32 by simp
qed

text \<open>
  Claim C1, as amended. One call of an update entry point runs the function of the one
  state the pointer holds, and that function starts a bounded number of timed bus
  transactions before it returns: for the accelerometer at most the larger of the six
  configuration writes and the sample count plus two (34 with the 32 configured
  samples: 32 burst reads and two register writes in MeasuringSelfTestOff), for the
  display at most eight (the commands of Configuring). The caller is held up for at
  most that many bus timeouts of 10 ms, counted in the ticks of the millisecond clock
  (the delay loop of a few microseconds between two burst reads is below a tick).
\<close>

theorem update_bounded_transactions:
  "nb_transactions (spi_log (snd (ADXL345update K s)))
     \<le> nb_transactions (spi_log s) + max NB_REG_INIT (unat (ADXL_AVG_SAMPLES K) + 2)
   \<and> elapsed_ms (snd (ADXL345update K s))
     \<le> elapsed_ms s + SPI_TIMEOUT_MS * max NB_REG_INIT (unat (ADXL_AVG_SAMPLES K) + 2)
   \<and> nb_transactions (ssd_log (snd (SSD1306update R B d))) \<le> nb_transactions (ssd_log d) + 8
   \<and> elapsed_ms_ssd (snd (SSD1306update R B d)) \<le> elapsed_ms_ssd d + SPI_TIMEOUT_MS * 8"
  using ADXL345update_count [of K s] ADXL345update_elapsed [of K s]
    SSD1306update_count [of R B d] SSD1306update_elapsed [of R B d]
  by blast

text \<open>
  Claim C1 as stated fails: in state Configuring, in front of a bus that answers, one
  call of the accelerometer's update performs the six register writes of the
  initialisation array, not one.
\<close>

theorem update_single_transaction_counterexample:
  "state (adxl_power_up\<lparr>state := Configuring\<rparr>) = Configuring
   \<and> nb_transactions (spi_log (adxl_power_up\<lparr>state := Configuring\<rparr>)) = 0
   \<and> nb_transactions (spi_log (snd (ADXL345update adxl345_datasheet (adxl_power_up\<lparr>state := Configuring\<rparr>)))) = 6"
proof -
  let ?s = "adxl_power_up\<lparr>state := Configuring\<rparr>"
  let ?L = "configure_loop adxl345_datasheet (initialisationArray adxl345_datasheet) ?s"
  have resp: "\<forall>k. spi_flag_ms ?s k = 0" by (simp add: adxl_power_up_def)
  have l: "fst ?L = None" "nb_transactions (spi_log (snd ?L)) = nb_transactions (spi_log ?s) + 6"
    using configure_loop_responsive [OF resp datasheet_rows] by (simp_all add: initialisationArray_def)
  have z: "nb_transactions (spi_log ?s) = 0" by (simp add: adxl_power_up_def)
  show ?thesis
    using l z by (simp add: ADXL345update_def stConfiguring_def split_beta)
qed

text \<open>
  Claim C3. The write that re-enables the FIFO should wait for the 25 ms settle delay.
  The code tests the countdown the other way round (its comment reads "if timer not
  elapsed yet, exit"): with the delay just armed and still running, the first call of
  the update writes the register and moves on to MeasuringSelfTestOn; and once the
  countdown has reached zero, every call returns success, writes nothing and leaves
  the machine where it is.
\<close>

theorem stWaitingForSTenabled_guard_inverted:
  "state (snd (ADXL345update adxl345_datasheet
            (adxl_power_up\<lparr>state := WaitingForSTenabled, adxlTimer_ms := ST_WAIT_MS\<rparr>))) = MeasuringST_ON
   \<and> nb_transactions (spi_log (snd (ADXL345update adxl345_datasheet
            (adxl_power_up\<lparr>state := WaitingForSTenabled, adxlTimer_ms := ST_WAIT_MS\<rparr>)))) = 1
   \<and> ADXL345update K (s\<lparr>state := WaitingForSTenabled, adxlTimer_ms := 0\<rparr>)
       = (ERR_SUCCESS, s\<lparr>state := WaitingForSTenabled, adxlTimer_ms := 0\<rparr>)"
proof -
  let ?s = "adxl_power_up\<lparr>state := WaitingForSTenabled, adxlTimer_ms := ST_WAIT_MS\<rparr>"
  let ?w = "writeRegister adxl345_datasheet (adxl345_datasheet FIFO_CONTROL) (FIFO_CONTROL_DEFAULT adxl345_datasheet) ?s"
  have resp: "\<forall>k. spi_flag_ms ?s k = 0" by (simp add: adxl_power_up_def)
  have ok: "fst ?w = ERR_SUCCESS"
    using writeRegister_responsive [OF resp, of "adxl345_datasheet FIFO_CONTROL" adxl345_datasheet] by simp
  have c: "nb_transactions (spi_log (snd ?w)) = 1"
    by (simp add: writeRegister_count adxl_power_up_def)
  have t: "adxlTimer_ms ?s \<noteq> 0" by (simp add: ST_WAIT_MS_def)
  have a: "state (snd (ADXL345update adxl345_datasheet ?s)) = MeasuringST_ON
     \<and> nb_transactions (spi_log (snd (ADXL345update adxl345_datasheet ?s))) = 1"
    using ok c t by (simp add: ADXL345update_def stWaitingForSTenabled_def Let_def split_beta)
  have b: "ADXL345update K (s\<lparr>state := WaitingForSTenabled, adxlTimer_ms := 0\<rparr>)
       = (ERR_SUCCESS, s\<lparr>state := WaitingForSTenabled, adxlTimer_ms := 0\<rparr>)"
    by (simp add: ADXL345update_def stWaitingForSTenabled_def)
  from a b show ?thesis by simp
qed

text \<open>
  Claim C6, as amended. The register write returns the range error and leaves
  everything as it is, the bus included, for every register number above the
  addressable maximum or in the reserved range (from 1 to the highest reserved
  register). The burst read, for a nonzero size, does so only for a starting register
  above the addressable maximum; for every other starting register, the reserved ones
  included, it starts a bus transaction.
\<close>

theorem register_validation:
  "(registerNumber > K ADXL_REGISTER_MAXNB
      \<or> (1 \<le> registerNumber \<and> registerNumber \<le> K ADXL_HIGH_RESERVED_REG)
    \<longrightarrow> writeRegister K registerNumber v s = (createErrorCode (adxl_id WRITE_REGISTER) 1 ERR_WARNING, s))
   \<and> (n \<noteq> 0 \<and> firstRegister > K ADXL_REGISTER_MAXNB
    \<longrightarrow> readRegisters K firstRegister val n s = (createErrorCode (adxl_id READ_REGISTERS) 1 ERR_WARNING, val, s))
   \<and> (n \<noteq> 0 \<and> firstRegister \<le> K ADXL_REGISTER_MAXNB
    \<longrightarrow> nb_transactions (spi_log (snd (snd (readRegisters K firstRegister val n s))))
          = Suc (nb_transactions (spi_log s)))"
  by (auto simp add: writeRegister_rejected readRegisters_rejected readRegisters_count
      reserved_range_iff)

theorem register_validation_witness:
  "(0x3A > adxl345_datasheet ADXL_REGISTER_MAXNB
    \<and> writeRegister adxl345_datasheet 0x3A 0 adxl_power_up
        = (createErrorCode (adxl_id WRITE_REGISTER) 1 ERR_WARNING, adxl_power_up))
   \<and> (1 \<le> (0x10 :: 8 word) \<and> 0x10 \<le> adxl345_datasheet ADXL_HIGH_RESERVED_REG
    \<and> writeRegister adxl345_datasheet 0x10 0 adxl_power_up
        = (createErrorCode (adxl_id WRITE_REGISTER) 1 ERR_WARNING, adxl_power_up))
   \<and> ((6 :: nat) \<noteq> 0 \<and> 0x3A > adxl345_datasheet ADXL_REGISTER_MAXNB
    \<and> readRegisters adxl345_datasheet 0x3A (replicate 6 0) 6 adxl_power_up
        = (createErrorCode (adxl_id READ_REGISTERS) 1 ERR_WARNING, replicate 6 0, adxl_power_up))
   \<and> ((6 :: nat) \<noteq> 0 \<and> 0x32 \<le> adxl345_datasheet ADXL_REGISTER_MAXNB
    \<and> nb_transactions (spi_log (snd (snd (readRegisters adxl345_datasheet 0x32 (replicate 6 0) 6 adxl_power_up))))
        = Suc (nb_transactions (spi_log adxl_power_up)))"
  using register_validation [of adxl345_datasheet "0x3A" 0 adxl_power_up 6 "0x3A" "replicate 6 0"]
    register_validation [of adxl345_datasheet "0x10" 0 adxl_power_up 6 "0x32" "replicate 6 0"]
  by simp

text \<open>
  Claim C6 as stated fails for the burst read: register 0x10 lies in the reserved range
  and the write rejects it, but a read of one byte from it goes to the bus and succeeds.
\<close>

theorem readRegisters_reserved_counterexample:
  "1 \<le> (0x10 :: 8 word) \<and> 0x10 \<le> adxl345_datasheet ADXL_HIGH_RESERVED_REG
   \<and> fst (writeRegister adxl345_datasheet 0x10 0 adxl_power_up)
        = createErrorCode (adxl_id WRITE_REGISTER) 1 ERR_WARNING
   \<and> fst (readRegisters adxl345_datasheet 0x10 [0] 1 adxl_power_up) = ERR_SUCCESS
   \<and> nb_transactions (spi_log adxl_power_up) = 0
   \<and> nb_transactions (spi_log (snd (snd (readRegisters adxl345_datasheet 0x10 [0] 1 adxl_power_up)))) = 1"
proof -
  have resp: "\<forall>k. spi_flag_ms adxl_power_up k = 0" by (simp add: adxl_power_up_def)
  have r: "fst (readRegisters adxl345_datasheet 0x10 [0] 1 adxl_power_up) = ERR_SUCCESS"
    using readRegisters_responsive [OF resp, of "0x10" adxl345_datasheet "[0]" 1] by simp
  have z: "nb_transactions (spi_log adxl_power_up) = 0" by (simp add: adxl_power_up_def)
  show ?thesis
    using r z by (simp add: writeRegister_rejected readRegisters_count)
qed

text \<open>
  Claim C4, as amended. In state Startup, a failed read of the device-identity register
  returns a failure code and leaves the machine in Startup, to retry at the next call;
  so does a successful read of an identity that does not match, with a success code. A
  matching identity moves the machine to Configuring. The machine goes to Error from
  Startup only when the outer countdown has reached zero.
\<close>

theorem stStartup_transitions:
  assumes "state s = Startup"
    and "readRegisters K (K DEVICE_ID) [0] 1 s = (r, deviceID, s1)"
  shows "(adxlTimer_ms s = 0 \<longrightarrow> state (snd (ADXL345update K s)) = Error)
     \<and> (adxlTimer_ms s \<noteq> 0 \<and> isError r
          \<longrightarrow> state (snd (ADXL345update K s)) = Startup \<and> isError (fst (ADXL345update K s)))
     \<and> (adxlTimer_ms s \<noteq> 0 \<and> \<not> isError r \<and> deviceID ! 0 \<noteq> K ADXL_DEVICE_ID
          \<longrightarrow> state (snd (ADXL345update K s)) = Startup \<and> fst (ADXL345update K s) = ERR_SUCCESS)
     \<and> (adxlTimer_ms s \<noteq> 0 \<and> \<not> isError r \<and> deviceID ! 0 = K ADXL_DEVICE_ID
          \<longrightarrow> state (snd (ADXL345update K s)) = Configuring)"
proof -
  have "s1 = snd (snd (readRegisters K (K DEVICE_ID) [0] 1 s))"
    using assms(2) by simp
  then have "state s1 = Startup"
    using assms(1) by simp
  then show ?thesis
    using assms by (simp add: ADXL345update_def stStartup_def)
qed

theorem stStartup_transitions_witness:
  "(adxlTimer_ms (adxl_power_up\<lparr>adxlTimer_ms := 0\<rparr>) = 0
      \<and> state (snd (ADXL345update adxl345_datasheet (adxl_power_up\<lparr>adxlTimer_ms := 0\<rparr>))) = Error)
   \<and> (isError (fst (readRegisters adxl345_datasheet (adxl345_datasheet DEVICE_ID) [0] 1
                      (adxl_power_up\<lparr>spi_flag_ms := (\<lambda>k. SPI_TIMEOUT_MS)\<rparr>)))
      \<and> state (snd (ADXL345update adxl345_datasheet (adxl_power_up\<lparr>spi_flag_ms := (\<lambda>k. SPI_TIMEOUT_MS)\<rparr>))) = Startup
      \<and> isError (fst (ADXL345update adxl345_datasheet (adxl_power_up\<lparr>spi_flag_ms := (\<lambda>k. SPI_TIMEOUT_MS)\<rparr>))))
   \<and> (\<not> isError (fst (readRegisters adxl345_datasheet (adxl345_datasheet DEVICE_ID) [0] 1 adxl_power_up))
      \<and> fst (snd (readRegisters adxl345_datasheet (adxl345_datasheet DEVICE_ID) [0] 1 adxl_power_up)) ! 0
           \<noteq> adxl345_datasheet ADXL_DEVICE_ID
      \<and> state (snd (ADXL345update adxl345_datasheet adxl_power_up)) = Startup
      \<and> fst (ADXL345update adxl345_datasheet adxl_power_up) = ERR_SUCCESS)
   \<and> (\<not> isError (fst (readRegisters adxl345_datasheet (adxl345_datasheet DEVICE_ID) [0] 1
                        (adxl_power_up\<lparr>spi_miso := (\<lambda>k. 0xE5)\<rparr>)))
      \<and> state (snd (ADXL345update adxl345_datasheet (adxl_power_up\<lparr>spi_miso := (\<lambda>k. 0xE5)\<rparr>))) = Configuring)"
proof -
  let ?K = adxl345_datasheet
  let ?a = "adxl_power_up\<lparr>adxlTimer_ms := 0\<rparr>"
  let ?b = "adxl_power_up\<lparr>spi_flag_ms := (\<lambda>k. SPI_TIMEOUT_MS)\<rparr>"
  let ?c = "adxl_power_up"
  let ?d = "adxl_power_up\<lparr>spi_miso := (\<lambda>k. 0xE5)\<rparr>"
  let ?rd = "\<lambda>s. readRegisters ?K (?K DEVICE_ID) [0] 1 s"
  have st: "state ?a = Startup" "state ?b = Startup" "state ?c = Startup" "state ?d = Startup"
    and tm: "adxlTimer_ms ?a = 0" "adxlTimer_ms ?b \<noteq> 0" "adxlTimer_ms ?c \<noteq> 0" "adxlTimer_ms ?d \<noteq> 0"
    by (simp_all add: adxl_power_up_def INT_TIMEOUT_MS_def)
  have rb: "isError (fst (?rd ?b))"
    using readRegisters_stuck [of ?b 1 "?K DEVICE_ID" ?K "[0]"] by simp
  have rc: "\<not> isError (fst (?rd ?c))"
    using readRegisters_responsive [of ?c "?K DEVICE_ID" ?K "[0]" 1] by (simp add: power_up_responsive)
  have r_d: "\<not> isError (fst (?rd ?d))"
    using readRegisters_responsive [of ?d "?K DEVICE_ID" ?K "[0]" 1] by (simp add: power_up_responsive)
  have idc: "fst (snd (?rd ?c)) ! 0 = 0"
    using readRegisters_success [OF rc] by (simp add: adxl_power_up_def)
  have idd: "fst (snd (?rd ?d)) ! 0 = 0xE5"
    using readRegisters_success [OF r_d] by simp
  have A: "state (snd (ADXL345update ?K ?a)) = Error"
    using stStartup_transitions [of ?a ?K "fst (?rd ?a)" "fst (snd (?rd ?a))" "snd (snd (?rd ?a))"] st(1) tm(1)
    by simp
  have B: "state (snd (ADXL345update ?K ?b)) = Startup \<and> isError (fst (ADXL345update ?K ?b))"
    using stStartup_transitions [of ?b ?K "fst (?rd ?b)" "fst (snd (?rd ?b))" "snd (snd (?rd ?b))"] st(2) tm(2) rb
    by simp
  have C: "state (snd (ADXL345update ?K ?c)) = Startup \<and> fst (ADXL345update ?K ?c) = ERR_SUCCESS"
    using stStartup_transitions [of ?c ?K "fst (?rd ?c)" "fst (snd (?rd ?c))" "snd (snd (?rd ?c))"] st(3) tm(3) rc idc
    by simp
  have D: "state (snd (ADXL345update ?K ?d)) = Configuring"
    using stStartup_transitions [of ?d ?K "fst (?rd ?d)" "fst (snd (?rd ?d))" "snd (snd (?rd ?d))"] st(4) tm(4) r_d idd
    by simp
  show ?thesis
    using A B C D rb rc r_d idc tm(1) by simp
qed

text \<open>
  Claim C4 as stated fails: with a bus that hangs, the read of the device identity
  times out, and the machine is still in Startup after the call, not in Error.
\<close>

theorem stStartup_read_failure_counterexample:
  "state (adxl_power_up\<lparr>spi_flag_ms := (\<lambda>k. 1000)\<rparr>) = Startup
   \<and> adxlTimer_ms (adxl_power_up\<lparr>spi_flag_ms := (\<lambda>k. 1000)\<rparr>) = 1000
   \<and> isError (fst (readRegisters adxl345_datasheet (adxl345_datasheet DEVICE_ID) [0] 1
                    (adxl_power_up\<lparr>spi_flag_ms := (\<lambda>k. 1000)\<rparr>)))
   \<and> state (snd (ADXL345update adxl345_datasheet (adxl_power_up\<lparr>spi_flag_ms := (\<lambda>k. 1000)\<rparr>))) = Startup
   \<and> state (snd (ADXL345update adxl345_datasheet (adxl_power_up\<lparr>spi_flag_ms := (\<lambda>k. 1000)\<rparr>))) \<noteq> Error"
proof -
  let ?K = adxl345_datasheet
  let ?s = "adxl_power_up\<lparr>spi_flag_ms := (\<lambda>k. 1000)\<rparr>"
  have e: "isError (fst (readRegisters ?K (?K DEVICE_ID) [0] 1 ?s))"
    using readRegisters_stuck [of ?s 1 "?K DEVICE_ID" ?K "[0]"] by (simp add: SPI_TIMEOUT_MS_def)
  have t: "adxlTimer_ms ?s = 1000" "state ?s = Startup"
    by (simp_all add: adxl_power_up_def INT_TIMEOUT_MS_def)
  have "state (snd (ADXL345update ?K ?s)) = Startup"
    using e t by (simp add: ADXL345update_def stStartup_def Let_def split_beta)
  then show ?thesis using e t by simp
qed

text \<open>
  Claim C2, as amended. In state MeasuringSelfTestOn, once the FIFO has been integrated,
  a self-test delta that is equal to a bound of its axis, or beyond it, is rejected, and
  a rejected delta sends the machine to Error. The deltas are accepted when each lies
  strictly between the two bounds of its axis, one unit inside a bound included; the
  machine then goes to Measuring, unless the register write that follows fails.
\<close>

theorem self_test_window:
  assumes "state s = MeasuringST_ON" and "adxlTimer_ms s \<noteq> 0" and "isFIFOdataReady s"
    and "integrateFIFO K s = (r, vals, s1)" and "\<not> isError r"
  shows "(sint (vals axis - latestValues s axis) \<le> sint (fst (ST_MAXDELTAS axis))
          \<or> sint (snd (ST_MAXDELTAS axis)) \<le> sint (vals axis - latestValues s axis)
        \<longrightarrow> state (snd (ADXL345update K s)) = Error)
     \<and> ((\<forall>a. sint (fst (ST_MAXDELTAS a)) < sint (vals a - latestValues s a)
              \<and> sint (vals a - latestValues s a) < sint (snd (ST_MAXDELTAS a)))
        \<longrightarrow> state (snd (ADXL345update K s)) =
             (if isError (fst (writeRegister K (K DATA_FORMAT) (DATA_FORMAT_DEFAULT K) (s1\<lparr>result := r\<rparr>)))
              then Error else Measuring))"
proof -
  have i: "fst (integrateFIFO K s) = r" "fst (snd (integrateFIFO K s)) = vals" "snd (snd (integrateFIFO K s)) = s1"
    using assms(4) by simp_all
  have st: "state (snd (ADXL345update K s)) =
     (if ST_out_of_range (\<lambda>axis. vals axis - latestValues s axis) then Error
      else if isError (fst (writeRegister K (K DATA_FORMAT) (DATA_FORMAT_DEFAULT K) (s1\<lparr>result := r\<rparr>)))
      then Error else Measuring)"
    using stMeasuringST_ON_state [of s K] assms(1,2,3,5) i by (simp add: ADXL345update_def)
  have rej: "state (snd (ADXL345update K s)) = Error"
    if "sint (vals axis - latestValues s axis) \<le> sint (fst (ST_MAXDELTAS axis))
          \<or> sint (snd (ST_MAXDELTAS axis)) \<le> sint (vals axis - latestValues s axis)"
  proof -
    from that have "ST_out_of_range (\<lambda>axis. vals axis - latestValues s axis)"
      unfolding ST_out_of_range_iff by blast
    then show ?thesis unfolding st by simp
  qed
  have acc: "state (snd (ADXL345update K s)) =
             (if isError (fst (writeRegister K (K DATA_FORMAT) (DATA_FORMAT_DEFAULT K) (s1\<lparr>result := r\<rparr>)))
              then Error else Measuring)"
    if "\<forall>a. sint (fst (ST_MAXDELTAS a)) < sint (vals a - latestValues s a)
              \<and> sint (vals a - latestValues s a) < sint (snd (ST_MAXDELTAS a))"
  proof -
    from that have "\<not> ST_out_of_range (\<lambda>axis. vals axis - latestValues s axis)"
      unfolding ST_out_of_range_iff by (auto simp add: not_le)
    then show ?thesis unfolding st by simp
  qed
  from rej acc show ?thesis by blast
qed

theorem self_test_window_witness:
  "(state (adxl_power_up\<lparr>state := MeasuringST_ON, latestValues := axes (- 949) 500 (- 500)\<rparr>) = MeasuringST_ON
    \<and> isFIFOdataReady (adxl_power_up\<lparr>state := MeasuringST_ON, latestValues := axes (- 949) 500 (- 500)\<rparr>)
    \<and> \<not> isError (fst (integrateFIFO adxl345_datasheet
           (adxl_power_up\<lparr>state := MeasuringST_ON, latestValues := axes (- 949) 500 (- 500)\<rparr>)))
    \<and> sint (fst (snd (integrateFIFO adxl345_datasheet
           (adxl_power_up\<lparr>state := MeasuringST_ON, latestValues := axes (- 949) 500 (- 500)\<rparr>))) X_AXIS
             - axes (- 949) 500 (- 500) X_AXIS) = sint (snd (ST_MAXDELTAS X_AXIS))
    \<and> state (snd (ADXL345update adxl345_datasheet
           (adxl_power_up\<lparr>state := MeasuringST_ON, latestValues := axes (- 949) 500 (- 500)\<rparr>))) = Error)
   \<and> (state (adxl_power_up\<lparr>state := MeasuringST_ON, latestValues := axes (- 86) 86 (- 119)\<rparr>) = MeasuringST_ON
    \<and> isFIFOdataReady (adxl_power_up\<lparr>state := MeasuringST_ON, latestValues := axes (- 86) 86 (- 119)\<rparr>)
    \<and> \<not> isError (fst (integrateFIFO adxl345_datasheet
           (adxl_power_up\<lparr>state := MeasuringST_ON, latestValues := axes (- 86) 86 (- 119)\<rparr>)))
    \<and> (\<forall>a. sint (fst (ST_MAXDELTAS a))
              < sint (fst (snd (integrateFIFO adxl345_datasheet
                    (adxl_power_up\<lparr>state := MeasuringST_ON, latestValues := axes (- 86) 86 (- 119)\<rparr>))) a
                      - axes (- 86) 86 (- 119) a)
           \<and> sint (fst (snd (integrateFIFO adxl345_datasheet
                    (adxl_power_up\<lparr>state := MeasuringST_ON, latestValues := axes (- 86) 86 (- 119)\<rparr>))) a
                      - axes (- 86) 86 (- 119) a)
              < sint (snd (ST_MAXDELTAS a)))
    \<and> state (snd (ADXL345update adxl345_datasheet
           (adxl_power_up\<lparr>state := MeasuringST_ON, latestValues := axes (- 86) 86 (- 119)\<rparr>))) = Measuring)"
proof -
  let ?K = adxl345_datasheet
  let ?s1 = "adxl_power_up\<lparr>state := MeasuringST_ON, latestValues := axes (- 949) 500 (- 500)\<rparr>"
  let ?s2 = "adxl_power_up\<lparr>state := MeasuringST_ON, latestValues := axes (- 86) 86 (- 119)\<rparr>"
  note r1 = self_test_run [OF refl, of "- 949" 500 "- 500"]
  note r2 = self_test_run [OF refl, of "- 86" 86 "- 119"]
  have d1: "sint (fst (snd (integrateFIFO ?K ?s1)) X_AXIS - axes (- 949) 500 (- 500) X_AXIS)
              = sint (snd (ST_MAXDELTAS X_AXIS))"
    using r1 by (simp add: axes_def)
  have d2: "sint (fst (ST_MAXDELTAS a)) < sint (fst (snd (integrateFIFO ?K ?s2)) a - axes (- 86) 86 (- 119) a)
          \<and> sint (fst (snd (integrateFIFO ?K ?s2)) a - axes (- 86) 86 (- 119) a) < sint (snd (ST_MAXDELTAS a))" for a
    using r2 by (cases a) (simp_all add: axes_def)
  have q1: "integrateFIFO ?K ?s1 = (fst (integrateFIFO ?K ?s1), fst (snd (integrateFIFO ?K ?s1)), snd (snd (integrateFIFO ?K ?s1)))"
    and q2: "integrateFIFO ?K ?s2 = (fst (integrateFIFO ?K ?s2), fst (snd (integrateFIFO ?K ?s2)), snd (snd (integrateFIFO ?K ?s2)))"
    by simp_all
  from r1 have p1: "state ?s1 = MeasuringST_ON" "adxlTimer_ms ?s1 \<noteq> 0" "isFIFOdataReady ?s1"
      "\<not> isError (fst (integrateFIFO ?K ?s1))" "latestValues ?s1 = axes (- 949) 500 (- 500)"
    by blast+
  from r2 have p2: "state ?s2 = MeasuringST_ON" "adxlTimer_ms ?s2 \<noteq> 0" "isFIFOdataReady ?s2"
      "\<not> isError (fst (integrateFIFO ?K ?s2))" "latestValues ?s2 = axes (- 86) 86 (- 119)"
      "\<not> isError (fst (writeRegister ?K (?K DATA_FORMAT) (DATA_FORMAT_DEFAULT ?K)
                     ((snd (snd (integrateFIFO ?K ?s2)))\<lparr>result := fst (integrateFIFO ?K ?s2)\<rparr>)))"
    by blast+
  note T1 = self_test_window [OF p1(1) p1(2) p1(3) q1 p1(4), of X_AXIS, unfolded p1(5)]
  note T2 = self_test_window [OF p2(1) p2(2) p2(3) q2 p2(4), of X_AXIS, unfolded p2(5)]
  have e1: "state (snd (ADXL345update ?K ?s1)) = Error"
    using T1 d1 by auto
  have e2: "state (snd (ADXL345update ?K ?s2)) = Measuring"
    using T2 d2 p2(6) by auto
  show ?thesis
    using r1 r2 d1 d2 e1 e2 by blast
qed

text \<open>
  Claim C2 as stated fails at the boundary: an X delta of exactly 85, the lower bound,
  with the Y and Z deltas well inside their windows, is rejected and the machine goes
  to Error.
\<close>

theorem self_test_boundary_counterexample:
  "state (adxl_power_up\<lparr>state := MeasuringST_ON, latestValues := axes (- 85) 500 (- 500)\<rparr>) = MeasuringST_ON
   \<and> \<not> isError (fst (integrateFIFO adxl345_datasheet
          (adxl_power_up\<lparr>state := MeasuringST_ON, latestValues := axes (- 85) 500 (- 500)\<rparr>)))
   \<and> sint (fst (snd (integrateFIFO adxl345_datasheet
          (adxl_power_up\<lparr>state := MeasuringST_ON, latestValues := axes (- 85) 500 (- 500)\<rparr>))) X_AXIS
            - axes (- 85) 500 (- 500) X_AXIS) = sint (fst (ST_MAXDELTAS X_AXIS))
   \<and> sint (fst (snd (integrateFIFO adxl345_datasheet
          (adxl_power_up\<lparr>state := MeasuringST_ON, latestValues := axes (- 85) 500 (- 500)\<rparr>))) Y_AXIS
            - axes (- 85) 500 (- 500) Y_AXIS) = - 500
   \<and> sint (fst (snd (integrateFIFO adxl345_datasheet
          (adxl_power_up\<lparr>state := MeasuringST_ON, latestValues := axes (- 85) 500 (- 500)\<rparr>))) Z_AXIS
            - axes (- 85) 500 (- 500) Z_AXIS) = 500
   \<and> state (snd (ADXL345update adxl345_datasheet
          (adxl_power_up\<lparr>state := MeasuringST_ON, latestValues := axes (- 85) 500 (- 500)\<rparr>))) = Error"
proof -
  let ?K = adxl345_datasheet
  let ?s = "adxl_power_up\<lparr>state := MeasuringST_ON, latestValues := axes (- 85) 500 (- 500)\<rparr>"
  note r = self_test_run [OF refl, of "- 85" 500 "- 500"]
  have d: "sint (fst (snd (integrateFIFO ?K ?s)) X_AXIS - axes (- 85) 500 (- 500) X_AXIS) = sint (fst (ST_MAXDELTAS X_AXIS))"
    "sint (fst (snd (integrateFIFO ?K ?s)) Y_AXIS - axes (- 85) 500 (- 500) Y_AXIS) = - 500"
    "sint (fst (snd (integrateFIFO ?K ?s)) Z_AXIS - axes (- 85) 500 (- 500) Z_AXIS) = 500"
    using r by (simp_all add: axes_def)
  have "ST_out_of_range (\<lambda>axis. fst (snd (integrateFIFO ?K ?s)) axis - latestValues ?s axis)"
    unfolding ST_out_of_range_iff using d(1) r by (intro exI [of _ X_AXIS]) simp
  then have "state (snd (ADXL345update ?K ?s)) = Error"
    using stMeasuringST_ON_state [of ?s ?K] r by (simp add: ADXL345update_def)
  then show ?thesis using r d by simp
qed

text \<open>
  Claim C7. Whenever the display state machine ends a transfer, by the completion flag
  of the DMA, by its error flag, by the outer countdown reaching zero, or by the failure
  of either address command, its next state is Idle. Idle is no dead end: the screen
  reports ready, an update leaves it in Idle with a success code, and each of the four
  buffer-preparation calls takes it to SendingData.
\<close>

theorem display_transfer_ends_in_Idle:
  assumes "state_ssd s = WaitingForTXdone \<and> (DMA_TC5 s \<or> DMA_TE5 s \<or> screenTimer_ms s = 0)
     \<or> state_ssd s = SendingData
        \<and> (isError (fst (sendCommand (R COLUMN_ADDRESS) (limitColumns s) 2 s))
           \<or> isError (fst (sendCommand (R PAGE_ADDRESS) (limitPages s) 2
                              (snd (sendCommand (R COLUMN_ADDRESS) (limitColumns s) 2 s)))))"
  shows "state_ssd (snd (SSD1306update R B s)) = Idle
     \<and> isScreenReady (snd (SSD1306update R B s))
     \<and> SSD1306update R B (snd (SSD1306update R B s)) = (ERR_SUCCESS, snd (SSD1306update R B s))
     \<and> state_ssd (snd (SSD1306drawBaseScreen B (snd (SSD1306update R B s)))) = SendingData
     \<and> state_ssd (snd (SSD1306_printAngleTenths B a ax (snd (SSD1306update R B s)))) = SendingData
     \<and> state_ssd (snd (SSD1306_printReferentialIcon B ty (snd (SSD1306update R B s)))) = SendingData
     \<and> state_ssd (snd (SSD1306_printHoldIcon B st (snd (SSD1306update R B s)))) = SendingData"
proof -
  have idle: "state_ssd (snd (SSD1306update R B s)) = Idle"
    using assms
    by (auto simp add: SSD1306update_def stWaitingForTXdone_def finalise_def stSendingData_state)
  then have "SSD1306update R B (snd (SSD1306update R B s)) = (ERR_SUCCESS, snd (SSD1306update R B s))"
    by (simp add: SSD1306update_def [of R B "snd (SSD1306update R B s)"] stIdle_def)
  with idle show ?thesis by (simp add: isScreenReady_def)
qed

theorem display_transfer_ends_in_Idle_witness:
  "(state_ssd (ssd_power_up\<lparr>state_ssd := WaitingForTXdone, screenTimer_ms := 4, DMA_TC5 := True\<rparr>) = WaitingForTXdone
      \<and> DMA_TC5 (ssd_power_up\<lparr>state_ssd := WaitingForTXdone, screenTimer_ms := 4, DMA_TC5 := True\<rparr>)
      \<and> state_ssd (snd (SSD1306update ssd1306_datasheet blank_bitmaps
           (ssd_power_up\<lparr>state_ssd := WaitingForTXdone, screenTimer_ms := 4, DMA_TC5 := True\<rparr>))) = Idle)
   \<and> (DMA_TE5 (ssd_power_up\<lparr>state_ssd := WaitingForTXdone, screenTimer_ms := 4, DMA_TE5 := True\<rparr>)
      \<and> state_ssd (snd (SSD1306update ssd1306_datasheet blank_bitmaps
           (ssd_power_up\<lparr>state_ssd := WaitingForTXdone, screenTimer_ms := 4, DMA_TE5 := True\<rparr>))) = Idle)
   \<and> (screenTimer_ms (ssd_power_up\<lparr>state_ssd := WaitingForTXdone\<rparr>) = 0
      \<and> state_ssd (snd (SSD1306update ssd1306_datasheet blank_bitmaps
           (ssd_power_up\<lparr>state_ssd := WaitingForTXdone\<rparr>))) = Idle)
   \<and> (state_ssd (ssd_power_up\<lparr>state_ssd := SendingData, ssd_flag_ms := (\<lambda>k. SPI_TIMEOUT_MS)\<rparr>) = SendingData
      \<and> isError (fst (sendCommand (ssd1306_datasheet COLUMN_ADDRESS)
            (limitColumns (ssd_power_up\<lparr>state_ssd := SendingData, ssd_flag_ms := (\<lambda>k. SPI_TIMEOUT_MS)\<rparr>)) 2
            (ssd_power_up\<lparr>state_ssd := SendingData, ssd_flag_ms := (\<lambda>k. SPI_TIMEOUT_MS)\<rparr>)))
      \<and> state_ssd (snd (SSD1306update ssd1306_datasheet blank_bitmaps
           (ssd_power_up\<lparr>state_ssd := SendingData, ssd_flag_ms := (\<lambda>k. SPI_TIMEOUT_MS)\<rparr>))) = Idle)
   \<and> (\<not> isError (fst (sendCommand (ssd1306_datasheet COLUMN_ADDRESS)
            (limitColumns (ssd_power_up\<lparr>state_ssd := SendingData, ssd_flag_ms := second_command_hangs\<rparr>)) 2
            (ssd_power_up\<lparr>state_ssd := SendingData, ssd_flag_ms := second_command_hangs\<rparr>)))
      \<and> isError (fst (sendCommand (ssd1306_datasheet PAGE_ADDRESS)
            (limitPages (ssd_power_up\<lparr>state_ssd := SendingData, ssd_flag_ms := second_command_hangs\<rparr>)) 2
            (snd (sendCommand (ssd1306_datasheet COLUMN_ADDRESS)
               (limitColumns (ssd_power_up\<lparr>state_ssd := SendingData, ssd_flag_ms := second_command_hangs\<rparr>)) 2
               (ssd_power_up\<lparr>state_ssd := SendingData, ssd_flag_ms := second_command_hangs\<rparr>)))))
      \<and> state_ssd (snd (SSD1306update ssd1306_datasheet blank_bitmaps
           (ssd_power_up\<lparr>state_ssd := SendingData, ssd_flag_ms := second_command_hangs\<rparr>))) = Idle)"
proof -
  let ?R = ssd1306_datasheet and ?B = blank_bitmaps
  let ?c = "ssd_power_up\<lparr>state_ssd := WaitingForTXdone, screenTimer_ms := 4, DMA_TC5 := True\<rparr>"
  let ?e = "ssd_power_up\<lparr>state_ssd := WaitingForTXdone, screenTimer_ms := 4, DMA_TE5 := True\<rparr>"
  let ?t = "ssd_power_up\<lparr>state_ssd := WaitingForTXdone\<rparr>"
  let ?f = "ssd_power_up\<lparr>state_ssd := SendingData, ssd_flag_ms := (\<lambda>k. SPI_TIMEOUT_MS)\<rparr>"
  let ?g = "ssd_power_up\<lparr>state_ssd := SendingData, ssd_flag_ms := second_command_hangs\<rparr>"
  have hc: "state_ssd ?c = WaitingForTXdone" "DMA_TC5 ?c"
    and he: "state_ssd ?e = WaitingForTXdone" "DMA_TE5 ?e"
    and ht: "state_ssd ?t = WaitingForTXdone" "screenTimer_ms ?t = 0"
    and hf: "state_ssd ?f = SendingData"
    and hg: "state_ssd ?g = SendingData" "limitColumns ?g = [0, 0]" "limitPages ?g = [0, 0]"
    by (simp_all add: ssd_power_up_def)
  have cf: "isError (fst (sendCommand (?R COLUMN_ADDRESS) (limitColumns ?f) 2 ?f))"
    using sendCommand_stuck [of ?f 2 "?R COLUMN_ADDRESS" "limitColumns ?f"]
    by (simp add: MAX_PARAMETERS_def)
  have cg1: "\<not> isError (fst (sendCommand (?R COLUMN_ADDRESS) (limitColumns ?g) 2 ?g))"
    unfolding hg using first_command_ok [of "?R COLUMN_ADDRESS"] by simp
  have cg2: "isError (fst (sendCommand (?R PAGE_ADDRESS) (limitPages ?g) 2
                            (snd (sendCommand (?R COLUMN_ADDRESS) (limitColumns ?g) 2 ?g))))"
    unfolding hg using second_command_fails [of "?R PAGE_ADDRESS" "?R COLUMN_ADDRESS"] .
  have "state_ssd (snd (SSD1306update ?R ?B ?c)) = Idle"
    using display_transfer_ends_in_Idle [of ?c ?R ?B] hc by simp
  moreover have "state_ssd (snd (SSD1306update ?R ?B ?e)) = Idle"
    using display_transfer_ends_in_Idle [of ?e ?R ?B] he by simp
  moreover have "state_ssd (snd (SSD1306update ?R ?B ?t)) = Idle"
    using display_transfer_ends_in_Idle [of ?t ?R ?B] ht by simp
  moreover have "state_ssd (snd (SSD1306update ?R ?B ?f)) = Idle"
    using display_transfer_ends_in_Idle [of ?f ?R ?B] hf cf by simp
  moreover have "state_ssd (snd (SSD1306update ?R ?B ?g)) = Idle"
    using display_transfer_ends_in_Idle [of ?g ?R ?B] hg(1) cg2 by simp
  ultimately show ?thesis using hc he ht hf cf cg1 cg2 by simp
qed

end
